theory Spec2Isabelle
  imports Main "HOL-Library.Word" "HOL-Library.Char_ord" "HOL-Library.List_Lexorder"
begin

section \<open>Data model (backend/models)\<close>

text \<open>
  A Go \<^verbatim>\<open>string\<close> is a sequence of bytes, which is what \<^typ>\<open>string\<close> is.
  A \<^verbatim>\<open>time.Time\<close> is used by the store only as an instant (it is stamped with
  \<^verbatim>\<open>time.Now().UTC()\<close> and never computed with), so it is modelled as an integer,
  a number of nanoseconds on the time line. \<^verbatim>\<open>Amount\<close> is an \<^verbatim>\<open>int64\<close>.
\<close>

type_synonym instant = int

record Chargeback =
  ID :: string
  Amount :: "64 word"
  Currency :: string
  Reason :: string
  CreatedAt :: instant
  UpdatedAt :: instant

section \<open>Errors\<close>

text \<open>
  \<^verbatim>\<open>ErrNotFound\<close> is the store's own error value. The other errors the store can
  return come from the two libraries it calls and are passed through unchanged: an error of
  \<^verbatim>\<open>encoding/json\<close> (carried with its message), and the three argument errors of
  \<^verbatim>\<open>bolt.Bucket.Put\<close>. Go compares error values by identity, so a library error is never
  equal to \<^verbatim>\<open>ErrNotFound\<close>; the datatype keeps them apart in the same way.
\<close>

datatype error =
    ErrNotFound
  | JsonError string
  | ErrKeyRequired
  | ErrKeyTooLarge
  | ErrValueTooLarge

section \<open>The codec (encoding/json, a parameter of the model)\<close>

text \<open>
  \<^verbatim>\<open>json.Marshal\<close> and \<^verbatim>\<open>json.Unmarshal\<close> belong to the Go standard library, not to
  the repository. The store is therefore modelled for an arbitrary codec: any pair of functions
  between records and payloads of some type \<open>'v\<close>, each of which may fail, together with the
  length of a payload in bytes. Whatever a theorem needs from the codec is a hypothesis of that
  theorem.
\<close>

record 'v codec =
  marshal :: "Chargeback \<Rightarrow> string + 'v"
  unmarshal :: "'v \<Rightarrow> string + Chargeback"
  len :: "'v \<Rightarrow> nat"

text \<open>
  Three laws a codec may obey; \<^verbatim>\<open>encoding/json\<close> obeys the first two, and the third for
  every payload whose \<^verbatim>\<open>Currency\<close> and \<^verbatim>\<open>Reason\<close> are valid UTF-8.

  The timestamps survive: what was encoded decodes, to a record with the same
  \<^verbatim>\<open>CreatedAt\<close> and \<^verbatim>\<open>UpdatedAt\<close>.
\<close>

definition timestamps_roundtrip :: "'v codec \<Rightarrow> bool" where
  "timestamps_roundtrip cd =
     (\<forall>r v. marshal cd r = Inr v \<longrightarrow>
        (\<exists>r'. unmarshal cd v = Inr r' \<and> CreatedAt r' = CreatedAt r \<and> UpdatedAt r' = UpdatedAt r))"

text \<open>
  An ID that the codec has decoded survives: a record with the ID of a decoded record, once
  encoded and decoded, still has that ID.
\<close>

definition decoded_ID_roundtrip :: "'v codec \<Rightarrow> bool" where
  "decoded_ID_roundtrip cd =
     (\<forall>v0 e r v r'. unmarshal cd v0 = Inr e \<and> ID r = ID e \<and> marshal cd r = Inr v \<and>
        unmarshal cd v = Inr r' \<longrightarrow> ID r' = ID r)"

text \<open>
  The codec reads the three mutable fields of the payload \<open>p\<close> back as they were written: a
  record with these fields, once encoded, decodes to a record with these fields.
\<close>

definition reads_back :: "'v codec \<Rightarrow> Chargeback \<Rightarrow> bool" where
  "reads_back cd p =
     (\<forall>r v. Amount r = Amount p \<and> Currency r = Currency p \<and> Reason r = Reason p \<and>
        marshal cd r = Inr v \<longrightarrow>
        (\<exists>r'. unmarshal cd v = Inr r' \<and> Amount r' = Amount p \<and> Currency r' = Currency p \<and>
              Reason r' = Reason p))"

text \<open>
  The codec that stores a record as itself: what \<^verbatim>\<open>encoding/json\<close> does to a record whose
  strings are valid UTF-8, up to the layout of the text.
\<close>

definition plain_codec :: "Chargeback codec" where
  "plain_codec = \<lparr>marshal = Inr, unmarshal = Inr, len = (\<lambda>r. length (Reason r))\<rparr>"

section \<open>What encoding/json does to strings\<close>

text \<open>
  \<^verbatim>\<open>encoding/json\<close> is documented to coerce string values to valid UTF-8, replacing
  invalid bytes with the Unicode replacement rune U+FFFD; it does so when it encodes and when
  it decodes. A byte sequence is the UTF-8 encoding of one rune when it has one of the four
  forms below (the table of Go's \<^verbatim>\<open>unicode/utf8\<close>). \<open>rune_len\<close> is the length of the
  rune that starts a string, or 0 when the first byte starts none; \<open>coerce_UTF8\<close> keeps every
  rune and replaces every other byte by the three bytes of U+FFFD.
\<close>

definition byte_in :: "nat \<Rightarrow> nat \<Rightarrow> char \<Rightarrow> bool" where
  "byte_in lo hi c = (lo \<le> of_char c \<and> of_char c \<le> hi)"

fun valid_rune :: "string \<Rightarrow> bool" where
  "valid_rune [c] = byte_in 0x00 0x7F c"
| "valid_rune [c, c1] = (byte_in 0xC2 0xDF c \<and> byte_in 0x80 0xBF c1)"
| "valid_rune [c, c1, c2] =
     (byte_in 0xE0 0xEF c
      \<and> byte_in (if of_char c = (0xE0 :: nat) then 0xA0 else 0x80)
                 (if of_char c = (0xED :: nat) then 0x9F else 0xBF) c1
      \<and> byte_in 0x80 0xBF c2)"
| "valid_rune [c, c1, c2, c3] =
     (byte_in 0xF0 0xF4 c
      \<and> byte_in (if of_char c = (0xF0 :: nat) then 0x90 else 0x80)
                 (if of_char c = (0xF4 :: nat) then 0x8F else 0xBF) c1
      \<and> byte_in 0x80 0xBF c2 \<and> byte_in 0x80 0xBF c3)"
| "valid_rune _ = False"

definition rune_at :: "nat \<Rightarrow> string \<Rightarrow> bool" where
  "rune_at k s = (k \<le> length s \<and> valid_rune (take k s))"

definition rune_len :: "string \<Rightarrow> nat" where
  "rune_len s =
     (if rune_at 1 s then 1
      else if rune_at 2 s then 2
      else if rune_at 3 s then 3
      else if rune_at 4 s then 4
      else 0)"

definition RuneError :: string where
  "RuneError = [CHR 0xEF, CHR 0xBF, CHR 0xBD]"

function coerce_UTF8 :: "string \<Rightarrow> string" where
  "coerce_UTF8 [] = []"
| "coerce_UTF8 (c # cs) =
     (if rune_len (c # cs) = 0 then RuneError @ coerce_UTF8 cs
      else take (rune_len (c # cs)) (c # cs) @ coerce_UTF8 (drop (rune_len (c # cs)) (c # cs)))"
  by pat_completeness auto
termination
  by (relation "measure length") auto

declare coerce_UTF8.simps [simp del]

text \<open>
  A codec that does to the strings of a record what \<^verbatim>\<open>encoding/json\<close> does, and nothing
  else: the payload is the record the JSON text denotes. Both directions coerce the three
  strings; the number and the timestamps are kept as they are. The length of the payload
  counts the bytes of its strings.
\<close>

definition coerce_strings :: "Chargeback \<Rightarrow> Chargeback" where
  "coerce_strings r =
     r\<lparr>ID := coerce_UTF8 (ID r), Currency := coerce_UTF8 (Currency r),
       Reason := coerce_UTF8 (Reason r)\<rparr>"

definition json_codec :: "Chargeback codec" where
  "json_codec =
     \<lparr>marshal = (\<lambda>r. Inr (coerce_strings r)),
      unmarshal = (\<lambda>v. Inr (coerce_strings v)),
      len = (\<lambda>v. length (ID v) + length (Currency v) + length (Reason v))\<rparr>"

section \<open>The storage engine (one bolt bucket)\<close>

text \<open>
  The bucket named \<^verbatim>\<open>chargebacks\<close> is an ordered map from keys to payloads; it is modelled
  as the list of its entries in the order bolt iterates them, which is the bytewise order of
  the keys.

  \<^verbatim>\<open>Bucket.Get\<close> returns nil for a key that is not there. \<^verbatim>\<open>Bucket.Put\<close> is documented
  to return an error if the key is blank, if the key is too large or if the value is too
  large (\<^verbatim>\<open>MaxKeySize = 32768\<close>, \<^verbatim>\<open>MaxValueSize = (1 << 31) - 2\<close>), and to set the value of
  the key otherwise. \<^verbatim>\<open>Bucket.Delete\<close> removes the key and is a no-op for a key that is not
  there. Faults of the disk and of the file lock are outside the model.
\<close>

type_synonym 'v bucket = "(string \<times> 'v) list"

definition MaxKeySize :: nat where
  "MaxKeySize = 32768"

definition MaxValueSize :: nat where
  "MaxValueSize = 2 ^ 31 - 2"

definition bucket_Get :: "string \<Rightarrow> 'v bucket \<Rightarrow> 'v option" where
  "bucket_Get k b = map_of b k"

fun bucket_set :: "string \<Rightarrow> 'v \<Rightarrow> 'v bucket \<Rightarrow> 'v bucket" where
  "bucket_set k v [] = [(k, v)]"
| "bucket_set k v ((k', v') # rest) =
     (if k = k' then (k, v) # rest
      else if k < k' then (k, v) # (k', v') # rest
      else (k', v') # bucket_set k v rest)"

definition bucket_Put :: "('v \<Rightarrow> nat) \<Rightarrow> string \<Rightarrow> 'v \<Rightarrow> 'v bucket \<Rightarrow> error + 'v bucket" where
  "bucket_Put length_of k v b =
     (if length k = 0 then Inl ErrKeyRequired
      else if length k > MaxKeySize then Inl ErrKeyTooLarge
      else if length_of v > MaxValueSize then Inl ErrValueTooLarge
      else Inr (bucket_set k v b))"

definition bucket_Delete :: "string \<Rightarrow> 'v bucket \<Rightarrow> error + 'v bucket" where
  "bucket_Delete k b = Inr (filter (\<lambda>kv. fst kv \<noteq> k) b)"

text \<open>
  \<^verbatim>\<open>db.Update\<close> runs a function in a write transaction: if the function returns an error
  the transaction is rolled back and the bucket is what it was, otherwise its writes are
  committed. The function is given the bucket and returns either an error, or the values it
  assigned to the variables of the enclosing method together with the bucket it wrote.
  \<^verbatim>\<open>db.View\<close> runs a function that only reads.
\<close>

definition db_Update ::
  "('v bucket \<Rightarrow> error + 'a \<times> 'v bucket) \<Rightarrow> 'v bucket \<Rightarrow> (error + 'a) \<times> 'v bucket" where
  "db_Update fn b = (case fn b of Inl e \<Rightarrow> (Inl e, b) | Inr (x, b') \<Rightarrow> (Inr x, b'))"

definition db_View :: "('v bucket \<Rightarrow> error + 'a) \<Rightarrow> 'v bucket \<Rightarrow> error + 'a" where
  "db_View fn b = fn b"

section \<open>The store (backend/store)\<close>

text \<open>A failed call of the codec is returned as the error it is.\<close>

definition json_Marshal :: "'v codec \<Rightarrow> Chargeback \<Rightarrow> error + 'v" where
  "json_Marshal cd c = (case marshal cd c of Inl m \<Rightarrow> Inl (JsonError m) | Inr data \<Rightarrow> Inr data)"

definition json_Unmarshal :: "'v codec \<Rightarrow> 'v \<Rightarrow> error + Chargeback" where
  "json_Unmarshal cd v = (case unmarshal cd v of Inl m \<Rightarrow> Inl (JsonError m) | Inr c \<Rightarrow> Inr c)"

text \<open>
  A Go slice is either nil or a sequence of elements; \<^verbatim>\<open>append\<close> to a nil slice gives a
  slice that is not nil.
\<close>

datatype 'a slice = Nil_slice | Slice "'a list"

fun append_slice :: "'a slice \<Rightarrow> 'a \<Rightarrow> 'a slice" where
  "append_slice Nil_slice x = Slice [x]"
| "append_slice (Slice xs) x = Slice (xs @ [x])"

text \<open>The elements of a slice; a nil slice has none.\<close>

fun elems :: "'a slice \<Rightarrow> 'a list" where
  "elems Nil_slice = []"
| "elems (Slice xs) = xs"

text \<open>
  \<^verbatim>\<open>b.ForEach\<close> in \<^verbatim>\<open>List\<close>: every entry in key order is decoded and appended to
  \<^verbatim>\<open>items\<close>; the first error ends the iteration.
\<close>

fun ForEach_decode ::
  "'v codec \<Rightarrow> 'v bucket \<Rightarrow> Chargeback slice \<Rightarrow> error + Chargeback slice" where
  "ForEach_decode cd [] items = Inr items"
| "ForEach_decode cd ((k, v) # rest) items =
     (case json_Unmarshal cd v of
        Inl err \<Rightarrow> Inl err
      | Inr c \<Rightarrow> ForEach_decode cd rest (append_slice items c))"

definition List :: "'v codec \<Rightarrow> 'v bucket \<Rightarrow> error + Chargeback slice" where
  "List cd b =
     (case db_View (\<lambda>b. ForEach_decode cd b Nil_slice) b of
        Inl err \<Rightarrow> Inl err
      | Inr items \<Rightarrow> Inr (if items = Nil_slice then Slice [] else items))"

definition Get :: "'v codec \<Rightarrow> string \<Rightarrow> 'v bucket \<Rightarrow> error + Chargeback" where
  "Get cd cid b =
     db_View (\<lambda>b.
       case bucket_Get cid b of
         None \<Rightarrow> Inl ErrNotFound
       | Some v \<Rightarrow> json_Unmarshal cd v) b"

text \<open>
  \<^verbatim>\<open>Create\<close> and \<^verbatim>\<open>Update\<close> take the reading of the clock, \<^verbatim>\<open>time.Now().UTC()\<close>, as
  the argument \<open>now\<close>; the reading is the wall clock's, and nothing in the store relates it to
  an earlier one. They return the method's result (an error, or the record and the flag) and
  the bucket after the transaction. \<^verbatim>\<open>Create\<close> stamps the two timestamps into the
  candidate it was given a pointer to and returns a copy of it; the model returns the copy.
\<close>

definition Create ::
  "'v codec \<Rightarrow> instant \<Rightarrow> Chargeback \<Rightarrow> 'v bucket \<Rightarrow> (error + Chargeback \<times> bool) \<times> 'v bucket" where
  "Create cd now c b =
     db_Update (\<lambda>b.
       case bucket_Get (ID c) b of
         Some existing \<Rightarrow>
           (case json_Unmarshal cd existing of
              Inl err \<Rightarrow> Inl err
            | Inr result \<Rightarrow> Inr ((result, False), b))
       | None \<Rightarrow>
           (let c = c\<lparr>CreatedAt := now, UpdatedAt := now\<rparr> in
            case json_Marshal cd c of
              Inl err \<Rightarrow> Inl err
            | Inr data \<Rightarrow>
                (case bucket_Put (len cd) (ID c) data b of
                   Inl err \<Rightarrow> Inl err
                 | Inr b' \<Rightarrow> Inr ((c, True), b')))) b"

definition Update ::
  "'v codec \<Rightarrow> instant \<Rightarrow> string \<Rightarrow> Chargeback \<Rightarrow> 'v bucket
     \<Rightarrow> (error + Chargeback \<times> bool) \<times> 'v bucket" where
  "Update cd now cid incoming b =
     db_Update (\<lambda>b.
       case bucket_Get cid b of
         None \<Rightarrow> Inl ErrNotFound
       | Some existingBytes \<Rightarrow>
           (case json_Unmarshal cd existingBytes of
              Inl err \<Rightarrow> Inl err
            | Inr existing \<Rightarrow>
                if Amount existing = Amount incoming \<and>
                   Currency existing = Currency incoming \<and>
                   Reason existing = Reason incoming
                then Inr ((existing, False), b)
                else
                  (let existing = existing\<lparr>Amount := Amount incoming,
                                           Currency := Currency incoming,
                                           Reason := Reason incoming,
                                           UpdatedAt := now\<rparr> in
                   case json_Marshal cd existing of
                     Inl err \<Rightarrow> Inl err
                   | Inr data \<Rightarrow>
                       (case bucket_Put (len cd) cid data b of
                          Inl err \<Rightarrow> Inl err
                        | Inr b' \<Rightarrow> Inr ((existing, True), b'))))) b"

definition Delete :: "string \<Rightarrow> 'v bucket \<Rightarrow> error option \<times> 'v bucket" where
  "Delete cid b =
     (case db_Update (\<lambda>b.
             case bucket_Delete cid b of
               Inl err \<Rightarrow> Inl err
             | Inr b' \<Rightarrow> Inr ((), b')) b of
        (Inl err, b') \<Rightarrow> (Some err, b')
      | (Inr _, b') \<Rightarrow> (None, b'))"


section \<open>Sequences of store operations\<close>

text \<open>
  A history of the store is a list of mutating calls, each with the reading of the clock at
  the time of the call (\<^verbatim>\<open>Delete\<close> does not read it). \<open>run\<close> applies them in order;
  a call that fails leaves the bucket as it was. \<^verbatim>\<open>Get\<close> and \<^verbatim>\<open>List\<close> do not change
  the bucket and are left out.
\<close>

datatype op = Op_Create Chargeback | Op_Update string Chargeback | Op_Delete string

fun step :: "'v codec \<Rightarrow> instant \<Rightarrow> op \<Rightarrow> 'v bucket \<Rightarrow> 'v bucket" where
  "step cd now (Op_Create c) b = snd (Create cd now c b)"
| "step cd now (Op_Update cid incoming) b = snd (Update cd now cid incoming b)"
| "step cd now (Op_Delete cid) b = snd (Delete cid b)"

fun run :: "'v codec \<Rightarrow> (instant \<times> op) list \<Rightarrow> 'v bucket \<Rightarrow> 'v bucket" where
  "run cd [] b = b"
| "run cd ((now, x) # rest) b = run cd rest (step cd now x b)"

text \<open>The record stored under a key, when the key is there and its payload decodes.\<close>

definition stored :: "'v codec \<Rightarrow> string \<Rightarrow> 'v bucket \<Rightarrow> Chargeback option" where
  "stored cd k b =
     (case bucket_Get k b of
        None \<Rightarrow> None
      | Some v \<Rightarrow> (case unmarshal cd v of Inl m \<Rightarrow> None | Inr r \<Rightarrow> Some r))"

text \<open>
  The key \<open>k\<close> is in the bucket before the history and after each of its calls: the record
  under \<open>k\<close> remains present throughout.
\<close>

fun present_throughout :: "'v codec \<Rightarrow> string \<Rightarrow> (instant \<times> op) list \<Rightarrow> 'v bucket \<Rightarrow> bool" where
  "present_throughout cd k [] b = (bucket_Get k b \<noteq> None)"
| "present_throughout cd k ((now, x) # rest) b =
     (bucket_Get k b \<noteq> None \<and> present_throughout cd k rest (step cd now x b))"

section \<open>The create handler (backend/handlers)\<close>

text \<open>
  What the handler writes is modelled as the state of the \<^verbatim>\<open>http.ResponseWriter\<close>: the
  headers set, the status code written and the bytes of the body. The value passed to
  \<^verbatim>\<open>writeJSON\<close> is either a record or a \<^verbatim>\<open>map[string]string\<close>. The decoder of the
  request body and the encoder of the response are \<^verbatim>\<open>encoding/json\<close> again and are
  parameters, like the codec of the store. \<^verbatim>\<open>writeJSON\<close> ignores the error of
  \<^verbatim>\<open>Encode\<close>, which writes nothing when it fails. The handler's \<^verbatim>\<open>store\<close> is given
  by the codec it stores with; the bucket is passed and returned as the state.
\<close>

datatype json_value = JChargeback Chargeback | JMap "(string \<times> string) list"

record ResponseWriter =
  Header :: "string \<rightharpoonup> string"
  status :: "nat option"
  written :: string

record Request =
  PathValue_id :: string
  Body :: string

record 'v Handler =
  store :: "'v codec"
  Decode :: "string \<Rightarrow> string + Chargeback"
  Encode :: "json_value \<Rightarrow> string + string"

definition StatusOK :: nat where "StatusOK = 200"
definition StatusCreated :: nat where "StatusCreated = 201"
definition StatusBadRequest :: nat where "StatusBadRequest = 400"
definition StatusInternalServerError :: nat where "StatusInternalServerError = 500"

definition writeJSON :: "'v Handler \<Rightarrow> ResponseWriter \<Rightarrow> nat \<Rightarrow> json_value \<Rightarrow> ResponseWriter" where
  "writeJSON h w st v =
     (let w = w\<lparr>Header := (Header w)(''Content-Type'' \<mapsto> ''application/json'')\<rparr>;
          w = w\<lparr>status := Some st\<rparr>
      in case Encode h v of
           Inl err \<Rightarrow> w
         | Inr bytes \<Rightarrow> w\<lparr>written := written w @ bytes\<rparr>)"

definition writeError :: "'v Handler \<Rightarrow> ResponseWriter \<Rightarrow> nat \<Rightarrow> string \<Rightarrow> ResponseWriter" where
  "writeError h w st msg = writeJSON h w st (JMap [(''error'', msg)])"

definition create ::
  "'v Handler \<Rightarrow> instant \<Rightarrow> ResponseWriter \<Rightarrow> Request \<Rightarrow> 'v bucket \<Rightarrow> ResponseWriter \<times> 'v bucket" where
  "create h now w r b =
     (let cid = PathValue_id r in
      if cid = [] then (writeError h w StatusBadRequest ''missing id in path'', b)
      else
        case Decode h (Body r) of
          Inl err \<Rightarrow> (writeError h w StatusBadRequest ''invalid JSON body'', b)
        | Inr body \<Rightarrow>
            (let body = body\<lparr>ID := cid\<rparr> in
             case Create (store h) now body b of
               (Inl err, b') \<Rightarrow>
                 (writeError h w StatusInternalServerError ''failed to create chargeback'', b')
             | (Inr (result, created), b') \<Rightarrow>
                 if created then (writeJSON h w StatusCreated (JChargeback result), b')
                 else (writeJSON h w StatusOK (JChargeback result), b')))"


section \<open>Fixtures of the store's tests (backend/store/bolt_test.go)\<close>

text \<open>
  The records the tests create and the payloads they send. A field the test leaves out has
  Go's zero value; where the zero \<^verbatim>\<open>time.Time\<close> lies on the time line plays no role,
  since the store never reads the timestamps of a candidate or of a payload.
\<close>

definition zero_Time :: instant where
  "zero_Time = 0"

definition cb_create :: Chargeback where
  "cb_create = \<lparr>ID = ''test-id-1'', Amount = 1000, Currency = ''USD'',
                 Reason = ''duplicate charge'', CreatedAt = zero_Time, UpdatedAt = zero_Time\<rparr>"

definition cb_update :: Chargeback where
  "cb_update = \<lparr>ID = ''test-id-2'', Amount = 500, Currency = ''EUR'',
                 Reason = ''fraudulent'', CreatedAt = zero_Time, UpdatedAt = zero_Time\<rparr>"

definition same :: Chargeback where
  "same = \<lparr>ID = [], Amount = 500, Currency = ''EUR'', Reason = ''fraudulent'',
            CreatedAt = zero_Time, UpdatedAt = zero_Time\<rparr>"

definition changed :: Chargeback where
  "changed = \<lparr>ID = [], Amount = 999, Currency = ''EUR'', Reason = ''fraudulent'',
               CreatedAt = zero_Time, UpdatedAt = zero_Time\<rparr>"

definition cb_delete :: Chargeback where
  "cb_delete = \<lparr>ID = ''del-id'', Amount = 100, Currency = ''USD'', Reason = ''test'',
                 CreatedAt = zero_Time, UpdatedAt = zero_Time\<rparr>"

text \<open>
  The payload of the second test with a \<^verbatim>\<open>Reason\<close> that is not valid UTF-8: the single
  byte \<open>0xFF\<close>.
\<close>

definition same_FF :: Chargeback where
  "same_FF = \<lparr>ID = [], Amount = 500, Currency = ''EUR'', Reason = [CHR 0xFF],
               CreatedAt = zero_Time, UpdatedAt = zero_Time\<rparr>"

text \<open>
  A handler for the fixtures: it stores records with \<open>plain_codec\<close>, reads every request
  body as the first test's record, and writes a record as its ID and a map as its first value.
\<close>

definition test_Handler :: "Chargeback Handler" where
  "test_Handler =
     \<lparr>store = plain_codec,
      Decode = (\<lambda>bytes. Inr cb_create),
      Encode = (\<lambda>v. case v of JChargeback c \<Rightarrow> Inr (ID c) | JMap m \<Rightarrow> Inr (snd (hd m)))\<rparr>"

definition new_ResponseWriter :: ResponseWriter where
  "new_ResponseWriter = \<lparr>Header = Map.empty, status = None, written = []\<rparr>"

section \<open>Properties of the bucket\<close>

lemma bucket_Get_set_same: "bucket_Get k (bucket_set k v b) = Some v"
  by (induction b) (auto simp: bucket_Get_def)

lemma bucket_Get_set_other: "k' \<noteq> k \<Longrightarrow> bucket_Get k' (bucket_set k v b) = bucket_Get k' b"
  by (induction b) (auto simp: bucket_Get_def)

lemma bucket_Get_filter_same: "bucket_Get k (filter (\<lambda>kv. fst kv \<noteq> k) b) = None"
  by (induction b) (auto simp: bucket_Get_def)

lemma bucket_Get_filter_other:
  "k' \<noteq> k \<Longrightarrow> bucket_Get k' (filter (\<lambda>kv. fst kv \<noteq> k) b) = bucket_Get k' b"
  by (induction b) (auto simp: bucket_Get_def)

lemma set_bucket_set: "x \<in> set (bucket_set k v b) \<Longrightarrow> x = (k, v) \<or> x \<in> set b"
  by (induction b) (auto split: if_splits)

section \<open>The branches of Create and Update\<close>

lemmas store_defs =
  Create_def Update_def Delete_def Get_def db_Update_def db_View_def
  json_Marshal_def json_Unmarshal_def bucket_Put_def bucket_Delete_def Let_def

lemma Update_present_same:
  assumes "bucket_Get cid b = Some v" and "unmarshal cd v = Inr e"
    and "Amount e = Amount incoming" "Currency e = Currency incoming" "Reason e = Reason incoming"
  shows "Update cd now cid incoming b = (Inr (e, False), b)"
  using assms by (simp add: store_defs)

lemma Update_present_changed:
  assumes "bucket_Get cid b = Some v" and "unmarshal cd v = Inr e"
    and "\<not> (Amount e = Amount incoming \<and> Currency e = Currency incoming
            \<and> Reason e = Reason incoming)"
  shows "Update cd now cid incoming b =
     (case marshal cd (e\<lparr>Amount := Amount incoming, Currency := Currency incoming,
                          Reason := Reason incoming, UpdatedAt := now\<rparr>) of
        Inl m \<Rightarrow> (Inl (JsonError m), b)
      | Inr data \<Rightarrow>
          if cid = [] then (Inl ErrKeyRequired, b)
          else if length cid > MaxKeySize then (Inl ErrKeyTooLarge, b)
          else if len cd data > MaxValueSize then (Inl ErrValueTooLarge, b)
          else (Inr (e\<lparr>Amount := Amount incoming, Currency := Currency incoming,
                        Reason := Reason incoming, UpdatedAt := now\<rparr>, True),
                bucket_set cid data b))"
  using assms by (simp add: store_defs split: sum.splits)

section \<open>The loop of List\<close>

lemma ForEach_decode_result:
  "ForEach_decode cd b items = Inr s \<Longrightarrow>
     \<exists>xs. map (\<lambda>kv. unmarshal cd (snd kv)) b = map Inr xs
          \<and> elems s = elems items @ xs \<and> (b = [] \<longrightarrow> s = items) \<and> (b \<noteq> [] \<longrightarrow> s \<noteq> Nil_slice)"
proof (induction b arbitrary: items)
  case Nil
  then show ?case by simp
next
  case (Cons kv rest)
  obtain k v where kv: "kv = (k, v)" by (cases kv)
  from Cons.prems kv obtain c where c: "unmarshal cd v = Inr c"
    and rec: "ForEach_decode cd rest (append_slice items c) = Inr s"
    by (auto simp: json_Unmarshal_def split: sum.splits)
  from Cons.IH [OF rec] obtain xs where xs:
    "map (\<lambda>kv. unmarshal cd (snd kv)) rest = map Inr xs"
    "elems s = elems (append_slice items c) @ xs"
    "rest = [] \<longrightarrow> s = append_slice items c" "rest \<noteq> [] \<longrightarrow> s \<noteq> Nil_slice"
    by blast
  have app: "elems (append_slice items c) = elems items @ [c]" "append_slice items c \<noteq> Nil_slice"
    by (cases items; simp)+
  have "s \<noteq> Nil_slice" using xs(3,4) app(2) by (cases "rest = []") auto
  with xs app c kv show ?case by (intro exI [of _ "c # xs"]) simp
qed

lemma ForEach_decode_total:
  "list_all (\<lambda>kv. \<not> isl (unmarshal cd (snd kv))) b \<Longrightarrow> \<exists>s. ForEach_decode cd b items = Inr s"
  by (induction b arbitrary: items) (auto simp: json_Unmarshal_def split: sum.splits)

section \<open>What one call writes\<close>

lemma bucket_Get_in_set: "bucket_Get k b = Some v \<Longrightarrow> (k, v) \<in> set b"
  by (simp add: bucket_Get_def map_of_SomeD)

text \<open>The entries written by one call: at most one, the encoding of the record returned.\<close>

lemma Create_writes:
  assumes "Create cd now c b = (res, b')"
  shows "b' = b \<or> (\<exists>data. marshal cd (c\<lparr>CreatedAt := now, UpdatedAt := now\<rparr>) = Inr data
                       \<and> b' = bucket_set (ID c) data b \<and> bucket_Get (ID c) b = None)"
  using assms by (auto simp: store_defs split: option.splits sum.splits if_splits)

lemma Update_writes:
  assumes "Update cd now cid incoming b = (res, b')"
  shows "b' = b \<or> (\<exists>v e data. bucket_Get cid b = Some v \<and> unmarshal cd v = Inr e
             \<and> marshal cd (e\<lparr>Amount := Amount incoming, Currency := Currency incoming,
                              Reason := Reason incoming, UpdatedAt := now\<rparr>) = Inr data
             \<and> b' = bucket_set cid data b)"
  using assms by (auto simp: store_defs split: option.splits sum.splits if_splits)

lemma Delete_writes: "snd (Delete cid b) = filter (\<lambda>kv. fst kv \<noteq> cid) b"
  by (simp add: store_defs)

section \<open>Histories\<close>

text \<open>
  The invariant of a history with a clock that never runs backwards: every payload decodes to
  a record created no later than it was last updated, and updated no later than \<open>T\<close>, the
  latest reading so far.
\<close>

lemma step_invariant:
  assumes tr: "timestamps_roundtrip cd" and le: "T \<le> now"
    and inv: "\<forall>kv\<in>set b. \<exists>r. unmarshal cd (snd kv) = Inr r
                \<and> CreatedAt r \<le> UpdatedAt r \<and> UpdatedAt r \<le> T"
  shows "\<forall>kv\<in>set (step cd now x b). \<exists>r. unmarshal cd (snd kv) = Inr r
                \<and> CreatedAt r \<le> UpdatedAt r \<and> UpdatedAt r \<le> now"
proof -
  have old: "\<exists>r. unmarshal cd (snd kv) = Inr r \<and> CreatedAt r \<le> UpdatedAt r \<and> UpdatedAt r \<le> now"
    if "kv \<in> set b" for kv
    using inv that le by fastforce
  have written: "\<exists>r. unmarshal cd (snd kv) = Inr r \<and> CreatedAt r \<le> UpdatedAt r
                   \<and> UpdatedAt r \<le> now"
    if "kv \<in> set (bucket_set k data b)" and "marshal cd w = Inr data"
      and "CreatedAt w \<le> now" and "UpdatedAt w = now" for kv k data w
  proof -
    from tr that(2) obtain r' where "unmarshal cd data = Inr r'"
      "CreatedAt r' = CreatedAt w" "UpdatedAt r' = UpdatedAt w"
      unfolding timestamps_roundtrip_def by blast
    with that(3,4) have new: "\<exists>r. unmarshal cd data = Inr r \<and> CreatedAt r \<le> UpdatedAt r
                       \<and> UpdatedAt r \<le> now" by simp
    from that(1) have "kv = (k, data) \<or> kv \<in> set b" by (rule set_bucket_set)
    then show ?thesis
    proof
      assume "kv = (k, data)" with new show ?thesis by simp
    next
      assume "kv \<in> set b" then show ?thesis by (rule old)
    qed
  qed
  show ?thesis
  proof (cases x)
    case (Op_Create c)
    obtain res b' where cr: "Create cd now c b = (res, b')" by (cases "Create cd now c b")
    from Create_writes [OF cr] show ?thesis
    proof
      assume "b' = b" then show ?thesis using Op_Create cr old by simp
    next
      assume "\<exists>data. marshal cd (c\<lparr>CreatedAt := now, UpdatedAt := now\<rparr>) = Inr data
                \<and> b' = bucket_set (ID c) data b \<and> bucket_Get (ID c) b = None"
      then obtain data where d: "marshal cd (c\<lparr>CreatedAt := now, UpdatedAt := now\<rparr>) = Inr data"
        "b' = bucket_set (ID c) data b" by blast
      show ?thesis
      proof
        fix kv assume "kv \<in> set (step cd now x b)"
        then have "kv \<in> set (bucket_set (ID c) data b)" using Op_Create cr d(2) by simp
        from written [OF this d(1)]
        show "\<exists>r. unmarshal cd (snd kv) = Inr r \<and> CreatedAt r \<le> UpdatedAt r
                      \<and> UpdatedAt r \<le> now" by simp
      qed
    qed
  next
    case (Op_Update cid incoming)
    obtain res b' where up: "Update cd now cid incoming b = (res, b')"
      by (cases "Update cd now cid incoming b")
    from Update_writes [OF up] show ?thesis
    proof
      assume "b' = b" then show ?thesis using Op_Update up old by simp
    next
      assume "\<exists>v e data. bucket_Get cid b = Some v \<and> unmarshal cd v = Inr e
             \<and> marshal cd (e\<lparr>Amount := Amount incoming, Currency := Currency incoming,
                              Reason := Reason incoming, UpdatedAt := now\<rparr>) = Inr data
             \<and> b' = bucket_set cid data b"
      then obtain v e data where d: "bucket_Get cid b = Some v" "unmarshal cd v = Inr e"
        "marshal cd (e\<lparr>Amount := Amount incoming, Currency := Currency incoming,
                       Reason := Reason incoming, UpdatedAt := now\<rparr>) = Inr data"
        "b' = bucket_set cid data b" by blast
      from bucket_Get_in_set [OF d(1)] inv d(2) have "CreatedAt e \<le> UpdatedAt e \<and> UpdatedAt e \<le> T"
        by fastforce
      with le have ce: "CreatedAt e \<le> now" by simp
      show ?thesis
      proof
        fix kv assume "kv \<in> set (step cd now x b)"
        then have "kv \<in> set (bucket_set cid data b)" using Op_Update up d(4) by simp
        from written [OF this d(3)] ce
        show "\<exists>r. unmarshal cd (snd kv) = Inr r \<and> CreatedAt r \<le> UpdatedAt r
                      \<and> UpdatedAt r \<le> now" by simp
      qed
    qed
  next
    case (Op_Delete cid)
    then show ?thesis using old by (simp add: Delete_writes)
  qed
qed

lemma run_invariant:
  assumes tr: "timestamps_roundtrip cd"
  shows "sorted (map fst ops) \<Longrightarrow> \<forall>t\<in>set (map fst ops). T \<le> t \<Longrightarrow>
     \<forall>kv\<in>set b. \<exists>r. unmarshal cd (snd kv) = Inr r
                \<and> CreatedAt r \<le> UpdatedAt r \<and> UpdatedAt r \<le> T \<Longrightarrow>
     \<forall>kv\<in>set (run cd ops b). \<exists>r. unmarshal cd (snd kv) = Inr r \<and> CreatedAt r \<le> UpdatedAt r"
proof (induction ops arbitrary: b T)
  case Nil
  then show ?case by fastforce
next
  case (Cons a ops)
  obtain now x where a: "a = (now, x)" by (cases a)
  from Cons.prems(2) a have le: "T \<le> now" by simp
  from Cons.prems(1) a have s: "sorted (map fst ops)" and ge: "\<forall>t\<in>set (map fst ops). now \<le> t"
    by simp_all
  from step_invariant [OF tr le Cons.prems(3)]
  have "\<forall>kv\<in>set (step cd now x b). \<exists>r. unmarshal cd (snd kv) = Inr r
                \<and> CreatedAt r \<le> UpdatedAt r \<and> UpdatedAt r \<le> now" .
  from Cons.IH [OF s ge this] show ?case using a by simp
qed

text \<open>One call never changes the creation time of a record that is there before and after.\<close>

lemma step_CreatedAt:
  assumes tr: "timestamps_roundtrip cd" and before: "stored cd k b = Some r"
    and after: "bucket_Get k (step cd now x b) \<noteq> None"
  shows "\<exists>r'. stored cd k (step cd now x b) = Some r' \<and> CreatedAt r' = CreatedAt r"
proof -
  from before obtain v where v: "bucket_Get k b = Some v" "unmarshal cd v = Inr r"
    by (auto simp: stored_def split: option.splits sum.splits)
  show ?thesis
  proof (cases x)
    case (Op_Create c)
    obtain res b' where cr: "Create cd now c b = (res, b')" by (cases "Create cd now c b")
    from Create_writes [OF cr] v have "bucket_Get k b' = bucket_Get k b"
      by (cases "k = ID c") (auto simp: bucket_Get_set_other)
    then show ?thesis using Op_Create cr before by (simp add: stored_def)
  next
    case (Op_Update cid incoming)
    obtain res b' where up: "Update cd now cid incoming b = (res, b')"
      by (cases "Update cd now cid incoming b")
    from Update_writes [OF up] show ?thesis
    proof
      assume "b' = b" then show ?thesis using Op_Update up before by simp
    next
      assume "\<exists>v e data. bucket_Get cid b = Some v \<and> unmarshal cd v = Inr e
             \<and> marshal cd (e\<lparr>Amount := Amount incoming, Currency := Currency incoming,
                              Reason := Reason incoming, UpdatedAt := now\<rparr>) = Inr data
             \<and> b' = bucket_set cid data b"
      then obtain v' e data where d: "bucket_Get cid b = Some v'" "unmarshal cd v' = Inr e"
        "marshal cd (e\<lparr>Amount := Amount incoming, Currency := Currency incoming,
                       Reason := Reason incoming, UpdatedAt := now\<rparr>) = Inr data"
        "b' = bucket_set cid data b" by blast
      show ?thesis
      proof (cases "k = cid")
        case True
        with d v have "e = r" by simp
        from tr d(3) obtain r' where "unmarshal cd data = Inr r'" "CreatedAt r' = CreatedAt e"
          unfolding timestamps_roundtrip_def by fastforce
        then show ?thesis using Op_Update up d(4) True \<open>e = r\<close>
          by (simp add: stored_def bucket_Get_set_same)
      next
        case False
        then show ?thesis using Op_Update up d(4) before
          by (simp add: stored_def bucket_Get_set_other)
      qed
    qed
  next
    case (Op_Delete cid)
    show ?thesis
    proof (cases "k = cid")
      case True
      then show ?thesis using after Op_Delete by (simp add: Delete_writes bucket_Get_filter_same)
    next
      case False
      then show ?thesis using Op_Delete before
        by (simp add: Delete_writes stored_def bucket_Get_filter_other)
    qed
  qed
qed

lemma run_CreatedAt:
  assumes tr: "timestamps_roundtrip cd"
  shows "stored cd k b = Some r \<Longrightarrow> present_throughout cd k ops b \<Longrightarrow>
         \<exists>r'. stored cd k (run cd ops b) = Some r' \<and> CreatedAt r' = CreatedAt r"
proof (induction ops arbitrary: b r)
  case Nil
  then show ?case by simp
next
  case (Cons a ops)
  obtain now x where a: "a = (now, x)" by (cases a)
  from Cons.prems(2) a have pt: "present_throughout cd k ops (step cd now x b)" by simp
  then have "bucket_Get k (step cd now x b) \<noteq> None" by (cases ops) auto
  from step_CreatedAt [OF tr Cons.prems(1) this]
  obtain r1 where r1: "stored cd k (step cd now x b) = Some r1" "CreatedAt r1 = CreatedAt r"
    by blast
  from Cons.IH [OF r1(1) pt] r1(2) a show ?case by simp
qed

section \<open>The coercion to valid UTF-8\<close>

lemma rune_len_le: "rune_len s \<le> length s"
  by (simp add: rune_len_def rune_at_def)

lemma rune_at_prefix:
  assumes "k \<le> n" and "n \<le> length s"
  shows "rune_at k (take n s @ ys) = rune_at k s"
proof -
  have "take k (take n s @ ys) = take k s" using assms by (simp add: min_def)
  then show ?thesis using assms by (simp add: rune_at_def)
qed

text \<open>The rune that starts a string starts every string that begins with its bytes.\<close>

lemma rune_len_prefix:
  assumes "rune_len s \<noteq> 0"
  shows "rune_len (take (rune_len s) s @ ys) = rune_len s"
proof -
  let ?n = "rune_len s"
  have n: "?n \<le> length s" by (rule rune_len_le)
  have pre: "rune_at k (take ?n s @ ys) = rune_at k s" if "k \<le> ?n" for k
    using that n by (rule rune_at_prefix)
  show ?thesis
  proof (cases "rune_at 1 s")
    case True
    then have v: "?n = 1" by (simp add: rune_len_def)
    have "rune_at 1 (take ?n s @ ys)" using pre [of 1] v True by simp
    then have "rune_len (take ?n s @ ys) = 1" by (simp add: rune_len_def)
    with v show ?thesis by simp
  next
    case f1: False
    show ?thesis
    proof (cases "rune_at 2 s")
      case True
      then have v: "?n = 2" using f1 by (simp add: rune_len_def)
      have "\<not> rune_at 1 (take ?n s @ ys)" "rune_at 2 (take ?n s @ ys)"
        using pre [of 1] pre [of 2] v True f1 by simp_all
      then have "rune_len (take ?n s @ ys) = 2" by (simp add: rune_len_def)
      with v show ?thesis by simp
    next
      case f2: False
      show ?thesis
      proof (cases "rune_at 3 s")
        case True
        then have v: "?n = 3" using f1 f2 by (simp add: rune_len_def)
        have "\<not> rune_at 1 (take ?n s @ ys)" "\<not> rune_at 2 (take ?n s @ ys)"
          "rune_at 3 (take ?n s @ ys)"
          using pre [of 1] pre [of 2] pre [of 3] v True f1 f2 by simp_all
        then have "rune_len (take ?n s @ ys) = 3" by (simp add: rune_len_def)
        with v show ?thesis by simp
      next
        case f3: False
        show ?thesis
        proof (cases "rune_at 4 s")
          case True
          then have v: "?n = 4" using f1 f2 f3 by (simp add: rune_len_def)
          have "\<not> rune_at 1 (take ?n s @ ys)" "\<not> rune_at 2 (take ?n s @ ys)"
            "\<not> rune_at 3 (take ?n s @ ys)" "rune_at 4 (take ?n s @ ys)"
            using pre [of 1] pre [of 2] pre [of 3] pre [of 4] v True f1 f2 f3 by simp_all
          then have "rune_len (take ?n s @ ys) = 4" by (simp add: rune_len_def)
          with v show ?thesis by simp
        next
          case False
          then have "?n = 0" using f1 f2 f3 by (simp add: rune_len_def)
          with assms show ?thesis by simp
        qed
      qed
    qed
  qed
qed

lemma coerce_UTF8_rune:
  assumes "p \<noteq> []" and "rune_len (p @ ys) = length p"
  shows "coerce_UTF8 (p @ ys) = p @ coerce_UTF8 ys"
proof -
  obtain c cs where pc: "p @ ys = c # cs" using assms(1) by (cases p) auto
  have "rune_len (c # cs) \<noteq> 0" using assms pc by simp
  then have "coerce_UTF8 (c # cs)
      = take (rune_len (c # cs)) (c # cs) @ coerce_UTF8 (drop (rune_len (c # cs)) (c # cs))"
    by (simp add: coerce_UTF8.simps)
  then show ?thesis using assms(2) pc by (metis append_eq_conv_conj)
qed

lemma rune_len_RuneError: "rune_len (RuneError @ ys) = 3"
  by (simp add: rune_len_def rune_at_def RuneError_def byte_in_def)

text \<open>What was coerced is valid: coercing it again changes nothing.\<close>

lemma coerce_UTF8_idem: "coerce_UTF8 (coerce_UTF8 s) = coerce_UTF8 s"
proof (induction s rule: coerce_UTF8.induct)
  case 1
  then show ?case by (simp add: coerce_UTF8.simps)
next
  case (2 c cs)
  show ?case
  proof (cases "rune_len (c # cs) = 0")
    case True
    have "coerce_UTF8 (RuneError @ coerce_UTF8 cs) = RuneError @ coerce_UTF8 (coerce_UTF8 cs)"
      by (rule coerce_UTF8_rune) (simp_all add: rune_len_RuneError, simp_all add: RuneError_def)
    then show ?thesis using True "2.IH"(1) by (simp add: coerce_UTF8.simps)
  next
    case False
    let ?n = "rune_len (c # cs)"
    let ?p = "take ?n (c # cs)"
    have len: "length ?p = ?n" using rune_len_le [of "c # cs"] by simp
    have ne: "?p \<noteq> []" using False by auto
    have "coerce_UTF8 (?p @ coerce_UTF8 (drop ?n (c # cs)))
          = ?p @ coerce_UTF8 (coerce_UTF8 (drop ?n (c # cs)))"
      using rune_len_prefix [OF False] len by (intro coerce_UTF8_rune [OF ne]) simp
    then show ?thesis using False "2.IH"(2) by (simp add: coerce_UTF8.simps)
  qed
qed

text \<open>The strings of the fixtures are valid UTF-8; the byte \<open>0xFF\<close> is not.\<close>

lemma coerce_UTF8_fixtures:
  "coerce_UTF8 [] = []"
  "coerce_UTF8 ''test-id-2'' = ''test-id-2''"
  "coerce_UTF8 ''EUR'' = ''EUR''"
  "coerce_UTF8 ''fraudulent'' = ''fraudulent''"
  "coerce_UTF8 [CHR 0xFF] = [CHR 0xEF, CHR 0xBF, CHR 0xBD]"
  "coerce_UTF8 [CHR 0xEF, CHR 0xBF, CHR 0xBD] = [CHR 0xEF, CHR 0xBF, CHR 0xBD]"
  by code_simp+

text \<open>Evaluating the store on the fixtures, with the JSON-like codec.\<close>

lemmas json_eval =
  store_defs stored_def bucket_Get_def json_codec_def coerce_strings_def coerce_UTF8_fixtures
  RuneError_def cb_update_def same_def changed_def same_FF_def MaxKeySize_def MaxValueSize_def

section \<open>The laws of the JSON-like codec\<close>

lemma json_codec_timestamps: "timestamps_roundtrip json_codec"
  by (simp add: timestamps_roundtrip_def json_codec_def coerce_strings_def)

lemma json_codec_decoded_ID: "decoded_ID_roundtrip json_codec"
  by (auto simp: decoded_ID_roundtrip_def json_codec_def coerce_strings_def coerce_UTF8_idem)

lemma json_codec_reads_back:
  assumes "coerce_UTF8 (Currency p) = Currency p" and "coerce_UTF8 (Reason p) = Reason p"
  shows "reads_back json_codec p"
  using assms by (auto simp: reads_back_def json_codec_def coerce_strings_def)

text \<open>On a record whose strings are valid UTF-8 the two codecs agree.\<close>

lemma json_codec_plain:
  assumes "coerce_UTF8 (ID r) = ID r" and "coerce_UTF8 (Currency r) = Currency r"
    and "coerce_UTF8 (Reason r) = Reason r"
  shows "marshal json_codec r = marshal plain_codec r"
    and "unmarshal json_codec r = unmarshal plain_codec r"
  using assms by (simp_all add: json_codec_def plain_codec_def coerce_strings_def)

section \<open>Create\<close>

text \<open>
  C1, as the code has it. Let the ID of the candidate be absent from the store. If the engine
  accepts the write (the ID is not empty and has at most \<open>MaxKeySize\<close> bytes, the encoded
  record has at most \<open>MaxValueSize\<close> bytes) and the codec encodes the stamped record, then
  \<^verbatim>\<open>Create\<close> stores the encoding of the candidate stamped with
  \<open>CreatedAt = UpdatedAt = now\<close> under the ID and returns that record with
  \<open>wasCreated = true\<close>. Let the ID be present and its payload decode to a record: then
  \<^verbatim>\<open>Create\<close> returns that record with \<open>wasCreated = false\<close>, whatever the
  fields of the candidate are, and the store is unchanged.
\<close>

theorem Create_once:
  "(bucket_Get (ID c) b = None \<and>
    marshal cd (c\<lparr>CreatedAt := now, UpdatedAt := now\<rparr>) = Inr data \<and>
    ID c \<noteq> [] \<and> length (ID c) \<le> MaxKeySize \<and> len cd data \<le> MaxValueSize
    \<longrightarrow> Create cd now c b
          = (Inr (c\<lparr>CreatedAt := now, UpdatedAt := now\<rparr>, True), bucket_set (ID c) data b)
        \<and> bucket_Get (ID c) (snd (Create cd now c b)) = Some data)
   \<and> (bucket_Get (ID c) b = Some v \<and> unmarshal cd v = Inr r
    \<longrightarrow> Create cd now c b = (Inr (r, False), b))"
  by (simp add: store_defs bucket_Get_set_same)

theorem Create_once_witness:
  "Create plain_codec 5 cb_create []
     = (Inr (cb_create\<lparr>CreatedAt := 5, UpdatedAt := 5\<rparr>, True),
        [(''test-id-1'', cb_create\<lparr>CreatedAt := 5, UpdatedAt := 5\<rparr>)])
   \<and> Create plain_codec 9 (cb_create\<lparr>Amount := 9999, Reason := ''other''\<rparr>)
        [(''test-id-1'', cb_create\<lparr>CreatedAt := 5, UpdatedAt := 5\<rparr>)]
     = (Inr (cb_create\<lparr>CreatedAt := 5, UpdatedAt := 5\<rparr>, False),
        [(''test-id-1'', cb_create\<lparr>CreatedAt := 5, UpdatedAt := 5\<rparr>)])"
proof -
  let ?r = "cb_create\<lparr>CreatedAt := 5, UpdatedAt := 5\<rparr>"
  have absent: "bucket_Get (ID cb_create) ([] :: Chargeback bucket) = None"
    by (simp add: bucket_Get_def)
  have enc: "marshal plain_codec ?r = Inr ?r" by (simp add: plain_codec_def)
  have key: "ID cb_create \<noteq> [] \<and> length (ID cb_create) \<le> MaxKeySize
             \<and> len plain_codec ?r \<le> MaxValueSize"
    by (simp add: cb_create_def plain_codec_def MaxKeySize_def MaxValueSize_def)
  have present: "bucket_Get (ID (cb_create\<lparr>Amount := 9999, Reason := ''other''\<rparr>))
                   [(''test-id-1'', ?r)] = Some ?r"
    by (simp add: bucket_Get_def cb_create_def)
  have dec: "unmarshal plain_codec ?r = Inr ?r" by (simp add: plain_codec_def)
  have first: "Create plain_codec 5 cb_create [] = (Inr (?r, True), [(''test-id-1'', ?r)])"
    using Create_once [of cb_create "[]" plain_codec 5 ?r] absent enc key
    by (simp add: cb_create_def)
  have second: "Create plain_codec 9 (cb_create\<lparr>Amount := 9999, Reason := ''other''\<rparr>)
                  [(''test-id-1'', ?r)] = (Inr (?r, False), [(''test-id-1'', ?r)])"
    using Create_once [of "cb_create\<lparr>Amount := 9999, Reason := ''other''\<rparr>"
                          "[(''test-id-1'', ?r)]" plain_codec 9 _ ?r ?r] present dec
    by simp
  from first second show ?thesis by simp
qed

text \<open>
  C1 as stated fails for the candidate with the empty ID: the ID is absent from the empty
  store, \<^verbatim>\<open>Put\<close> refuses the blank key, the transaction is rolled back, and
  \<^verbatim>\<open>Create\<close> returns the engine's error and has stored nothing. (The HTTP handler
  rejects an empty ID before it calls the store; the store itself does not.)
\<close>

theorem Create_empty_ID_counterexample:
  "bucket_Get (ID \<lparr>ID = [], Amount = 1000, Currency = ''USD'', Reason = ''dup'',
                  CreatedAt = 0, UpdatedAt = 0\<rparr>) ([] :: Chargeback bucket) = None
   \<and> Create plain_codec 5 \<lparr>ID = [], Amount = 1000, Currency = ''USD'', Reason = ''dup'',
                  CreatedAt = 0, UpdatedAt = 0\<rparr> [] = (Inl ErrKeyRequired, [])"
  by (simp add: store_defs bucket_Get_def plain_codec_def)

section \<open>Update\<close>

text \<open>
  C2, as the code has it. Let the id be present and its payload decode to the record \<open>e\<close>.
  If \<^verbatim>\<open>Amount\<close>, \<^verbatim>\<open>Currency\<close> and \<^verbatim>\<open>Reason\<close> of the payload equal those of
  \<open>e\<close>, then \<^verbatim>\<open>Update\<close> returns \<open>e\<close> itself (so \<^verbatim>\<open>UpdatedAt\<close> is unchanged) with
  \<open>wasWritten = false\<close>, and the store is unchanged. After a successful \<^verbatim>\<open>Update\<close> with a
  payload whose three mutable fields the codec reads back as they were written, the same
  \<^verbatim>\<open>Update\<close> again, at any reading of the clock, writes nothing, leaves the store as it is
  and returns the stored record, whose three mutable fields are the payload's. And whenever
  the returned \<^verbatim>\<open>UpdatedAt\<close> differs from the stored one, at least one of the three fields
  differed.
\<close>

theorem Update_noop_law:
  assumes "bucket_Get cid b = Some v" and "unmarshal cd v = Inr e"
  shows "(Amount incoming = Amount e \<and> Currency incoming = Currency e \<and> Reason incoming = Reason e
          \<longrightarrow> Update cd now cid incoming b = (Inr (e, False), b))
       \<and> (\<forall>r w b' now'. Update cd now cid incoming b = (Inr (r, w), b') \<and>
                    reads_back cd incoming
            \<longrightarrow> (\<exists>r'. stored cd cid b' = Some r'
                   \<and> Amount r' = Amount incoming \<and> Currency r' = Currency incoming
                   \<and> Reason r' = Reason incoming
                   \<and> Update cd now' cid incoming b' = (Inr (r', False), b')))
       \<and> (\<forall>r w b'. Update cd now cid incoming b = (Inr (r, w), b') \<and> UpdatedAt r \<noteq> UpdatedAt e
            \<longrightarrow> Amount incoming \<noteq> Amount e \<or> Currency incoming \<noteq> Currency e
                \<or> Reason incoming \<noteq> Reason e)"
proof (intro conjI allI impI)
  assume "Amount incoming = Amount e \<and> Currency incoming = Currency e \<and> Reason incoming = Reason e"
  then show "Update cd now cid incoming b = (Inr (e, False), b)"
    using Update_present_same [OF assms] by simp
next
  fix r w b' now'
  assume h: "Update cd now cid incoming b = (Inr (r, w), b') \<and> reads_back cd incoming"
  show "\<exists>r'. stored cd cid b' = Some r'
          \<and> Amount r' = Amount incoming \<and> Currency r' = Currency incoming
          \<and> Reason r' = Reason incoming
          \<and> Update cd now' cid incoming b' = (Inr (r', False), b')"
  proof (cases "Amount e = Amount incoming \<and> Currency e = Currency incoming
                \<and> Reason e = Reason incoming")
    case True
    then have "Update cd now cid incoming b = (Inr (e, False), b)"
      using Update_present_same [OF assms] by simp
    with h have "b' = b" by simp
    moreover have "stored cd cid b = Some e" using assms by (simp add: stored_def)
    moreover have "Update cd now' cid incoming b = (Inr (e, False), b)"
      using Update_present_same [OF assms] True by simp
    ultimately show ?thesis using True by auto
  next
    case False
    let ?e = "e\<lparr>Amount := Amount incoming, Currency := Currency incoming,
                 Reason := Reason incoming, UpdatedAt := now\<rparr>"
    from h Update_present_changed [OF assms False, of now]
    obtain data where d: "marshal cd ?e = Inr data" "b' = bucket_set cid data b"
      by (auto split: sum.splits if_splits)
    have "Amount ?e = Amount incoming \<and> Currency ?e = Currency incoming
          \<and> Reason ?e = Reason incoming" by simp
    with h d(1) obtain r' where r': "unmarshal cd data = Inr r'" "Amount r' = Amount incoming"
      "Currency r' = Currency incoming" "Reason r' = Reason incoming"
      unfolding reads_back_def by blast
    have g: "bucket_Get cid b' = Some data" using d(2) by (simp add: bucket_Get_set_same)
    have "stored cd cid b' = Some r'" using g r'(1) by (simp add: stored_def)
    moreover have "Update cd now' cid incoming b' = (Inr (r', False), b')"
      using r'(2-4) by (intro Update_present_same [OF g r'(1)]) simp_all
    ultimately show ?thesis using r'(2-4) by blast
  qed
next
  fix r w b'
  assume h: "Update cd now cid incoming b = (Inr (r, w), b') \<and> UpdatedAt r \<noteq> UpdatedAt e"
  show "Amount incoming \<noteq> Amount e \<or> Currency incoming \<noteq> Currency e
        \<or> Reason incoming \<noteq> Reason e"
  proof (rule ccontr)
    assume "\<not> ?thesis"
    then have "Update cd now cid incoming b = (Inr (e, False), b)"
      using Update_present_same [OF assms] by simp
    with h show False by auto
  qed
qed

theorem Update_noop_law_witness:
  "Update json_codec 9 ''test-id-2'' same
       [(''test-id-2'', cb_update\<lparr>CreatedAt := 5, UpdatedAt := 5\<rparr>)]
     = (Inr (cb_update\<lparr>CreatedAt := 5, UpdatedAt := 5\<rparr>, False),
        [(''test-id-2'', cb_update\<lparr>CreatedAt := 5, UpdatedAt := 5\<rparr>)])
   \<and> reads_back json_codec changed
   \<and> Update json_codec 12 ''test-id-2'' changed
       [(''test-id-2'', cb_update\<lparr>Amount := 999, CreatedAt := 5, UpdatedAt := 9\<rparr>)]
     = (Inr (cb_update\<lparr>Amount := 999, CreatedAt := 5, UpdatedAt := 9\<rparr>, False),
        [(''test-id-2'', cb_update\<lparr>Amount := 999, CreatedAt := 5, UpdatedAt := 9\<rparr>)])
   \<and> Update json_codec 9 ''test-id-2'' changed
       [(''test-id-2'', cb_update\<lparr>CreatedAt := 5, UpdatedAt := 5\<rparr>)]
     = (Inr (cb_update\<lparr>Amount := 999, CreatedAt := 5, UpdatedAt := 9\<rparr>, True),
        [(''test-id-2'', cb_update\<lparr>Amount := 999, CreatedAt := 5, UpdatedAt := 9\<rparr>)])
   \<and> Amount changed \<noteq> Amount (cb_update\<lparr>CreatedAt := 5, UpdatedAt := 5\<rparr>)"
proof -
  let ?e = "cb_update\<lparr>CreatedAt := 5, UpdatedAt := 5\<rparr>"
  let ?r = "cb_update\<lparr>Amount := 999, CreatedAt := 5, UpdatedAt := 9\<rparr>"
  have present: "bucket_Get ''test-id-2'' [(''test-id-2'', ?e)] = Some ?e"
    by (simp add: bucket_Get_def)
  have dec: "unmarshal json_codec ?e = Inr ?e" by (simp add: json_eval)
  note law = Update_noop_law [OF present dec]
  have eq: "Amount same = Amount ?e \<and> Currency same = Currency ?e \<and> Reason same = Reason ?e"
    by (simp add: same_def cb_update_def)
  have first: "Update json_codec 9 ''test-id-2'' same [(''test-id-2'', ?e)]
               = (Inr (?e, False), [(''test-id-2'', ?e)])"
    using law [of same 9] eq by simp
  have wrote: "Update json_codec 9 ''test-id-2'' changed [(''test-id-2'', ?e)]
               = (Inr (?r, True), [(''test-id-2'', ?r)])"
    by (simp add: json_eval)
  have rb: "reads_back json_codec changed"
    by (rule json_codec_reads_back) (simp_all add: changed_def coerce_UTF8_fixtures)
  have st: "stored json_codec ''test-id-2'' [(''test-id-2'', ?r)] = Some ?r"
    by (simp add: json_eval)
  from law [of changed 9] wrote rb
  obtain r' where "stored json_codec ''test-id-2'' [(''test-id-2'', ?r)] = Some r'"
    "Update json_codec 12 ''test-id-2'' changed [(''test-id-2'', ?r)]
       = (Inr (r', False), [(''test-id-2'', ?r)])"
    by blast
  with st have second: "Update json_codec 12 ''test-id-2'' changed [(''test-id-2'', ?r)]
                = (Inr (?r, False), [(''test-id-2'', ?r)])" by simp
  have "UpdatedAt ?r \<noteq> UpdatedAt ?e" by simp
  with law [of changed 9] wrote
  have "Amount changed \<noteq> Amount ?e \<or> Currency changed \<noteq> Currency ?e
        \<or> Reason changed \<noteq> Reason ?e"
    by blast
  then have third: "Amount changed \<noteq> Amount ?e" by (simp add: changed_def cb_update_def)
  show ?thesis by (intro conjI first rb second wrote third)
qed

text \<open>
  C2 as stated fails for a payload whose \<^verbatim>\<open>Reason\<close> is not valid UTF-8. The codec stores
  U+FFFD for the byte \<open>0xFF\<close>, so the comparison of the stored \<^verbatim>\<open>Reason\<close> with the
  payload's never succeeds: the first \<^verbatim>\<open>Update\<close> writes, and the same \<^verbatim>\<open>Update\<close> again
  writes again and moves \<^verbatim>\<open>UpdatedAt\<close> from 9 to 12. (A payload that reaches the store
  through the HTTP handler has been decoded by \<^verbatim>\<open>encoding/json\<close> and is valid UTF-8.)
\<close>

theorem Update_repeat_counterexample:
  "Update json_codec 9 ''test-id-2'' same_FF
       [(''test-id-2'', cb_update\<lparr>CreatedAt := 5, UpdatedAt := 5\<rparr>)]
     = (Inr (cb_update\<lparr>Reason := [CHR 0xFF], CreatedAt := 5, UpdatedAt := 9\<rparr>, True),
        [(''test-id-2'', cb_update\<lparr>Reason := RuneError, CreatedAt := 5, UpdatedAt := 9\<rparr>)])
   \<and> Update json_codec 12 ''test-id-2'' same_FF
       [(''test-id-2'', cb_update\<lparr>Reason := RuneError, CreatedAt := 5, UpdatedAt := 9\<rparr>)]
     = (Inr (cb_update\<lparr>Reason := [CHR 0xFF], CreatedAt := 5, UpdatedAt := 12\<rparr>, True),
        [(''test-id-2'', cb_update\<lparr>Reason := RuneError, CreatedAt := 5, UpdatedAt := 12\<rparr>)])"
  by (simp add: json_eval)

text \<open>
  C3, as the code has it. Let the id be present and its payload decode to \<open>e\<close>, and let
  at least one of \<^verbatim>\<open>Amount\<close>, \<^verbatim>\<open>Currency\<close>, \<^verbatim>\<open>Reason\<close> of the payload
  differ from \<open>e\<close>. If the codec encodes the updated record and the engine accepts the write,
  then \<^verbatim>\<open>Update\<close> returns \<open>wasWritten = true\<close> and a record with the three mutable fields
  of the payload and with the reading of the clock taken by this call as its
  \<^verbatim>\<open>UpdatedAt\<close>, which is strictly greater than the previous \<^verbatim>\<open>UpdatedAt\<close> exactly when
  that reading is; and what is stored under the id afterwards is the encoding of that record.
  So the three mutable fields of the stored record afterwards are the payload's when the codec
  reads them back as they were written, and its \<^verbatim>\<open>UpdatedAt\<close> is that reading when the
  timestamps survive the codec.
\<close>

theorem Update_effect_law:
  assumes "bucket_Get cid b = Some v" and "unmarshal cd v = Inr e"
    and "Amount incoming \<noteq> Amount e \<or> Currency incoming \<noteq> Currency e
         \<or> Reason incoming \<noteq> Reason e"
    and "marshal cd (e\<lparr>Amount := Amount incoming, Currency := Currency incoming,
                       Reason := Reason incoming, UpdatedAt := now\<rparr>) = Inr data"
    and "cid \<noteq> []" and "length cid \<le> MaxKeySize" and "len cd data \<le> MaxValueSize"
  shows "Update cd now cid incoming b
           = (Inr (e\<lparr>Amount := Amount incoming, Currency := Currency incoming,
                     Reason := Reason incoming, UpdatedAt := now\<rparr>, True),
              bucket_set cid data b)
         \<and> bucket_Get cid (snd (Update cd now cid incoming b)) = Some data
         \<and> (\<forall>r. fst (Update cd now cid incoming b) = Inr (r, True)
              \<longrightarrow> marshal cd r = Inr data
                \<and> Amount r = Amount incoming \<and> Currency r = Currency incoming
                \<and> Reason r = Reason incoming \<and> UpdatedAt r = now
                \<and> (UpdatedAt e < UpdatedAt r) = (UpdatedAt e < now))
         \<and> (reads_back cd incoming
              \<longrightarrow> (\<exists>r'. stored cd cid (snd (Update cd now cid incoming b)) = Some r'
                     \<and> Amount r' = Amount incoming \<and> Currency r' = Currency incoming
                     \<and> Reason r' = Reason incoming))
         \<and> (timestamps_roundtrip cd
              \<longrightarrow> (\<exists>r'. stored cd cid (snd (Update cd now cid incoming b)) = Some r'
                     \<and> UpdatedAt r' = now
                     \<and> (UpdatedAt e < UpdatedAt r') = (UpdatedAt e < now)))"
proof -
  let ?e = "e\<lparr>Amount := Amount incoming, Currency := Currency incoming,
               Reason := Reason incoming, UpdatedAt := now\<rparr>"
  have neq: "\<not> (Amount e = Amount incoming \<and> Currency e = Currency incoming
                \<and> Reason e = Reason incoming)"
    using assms(3) by auto
  have u: "Update cd now cid incoming b = (Inr (?e, True), bucket_set cid data b)"
    using Update_present_changed [OF assms(1,2) neq, of now] assms(4-7) by simp
  have g: "bucket_Get cid (snd (Update cd now cid incoming b)) = Some data"
    using u by (simp add: bucket_Get_set_same)
  have returned: "\<forall>r. fst (Update cd now cid incoming b) = Inr (r, True)
              \<longrightarrow> marshal cd r = Inr data
                \<and> Amount r = Amount incoming \<and> Currency r = Currency incoming
                \<and> Reason r = Reason incoming \<and> UpdatedAt r = now
                \<and> (UpdatedAt e < UpdatedAt r) = (UpdatedAt e < now)"
    using u assms(4) by simp
  have fields: "\<exists>r'. stored cd cid (snd (Update cd now cid incoming b)) = Some r'
                     \<and> Amount r' = Amount incoming \<and> Currency r' = Currency incoming
                     \<and> Reason r' = Reason incoming"
    if "reads_back cd incoming"
  proof -
    have "Amount ?e = Amount incoming \<and> Currency ?e = Currency incoming
          \<and> Reason ?e = Reason incoming" by simp
    with that assms(4) obtain r' where "unmarshal cd data = Inr r'" "Amount r' = Amount incoming"
      "Currency r' = Currency incoming" "Reason r' = Reason incoming"
      unfolding reads_back_def by blast
    then show ?thesis using g by (simp add: stored_def)
  qed
  have stamp: "\<exists>r'. stored cd cid (snd (Update cd now cid incoming b)) = Some r'
                     \<and> UpdatedAt r' = now
                     \<and> (UpdatedAt e < UpdatedAt r') = (UpdatedAt e < now)"
    if "timestamps_roundtrip cd"
  proof -
    from that assms(4) obtain r' where "unmarshal cd data = Inr r'" "UpdatedAt r' = UpdatedAt ?e"
      unfolding timestamps_roundtrip_def by blast
    then show ?thesis using g by (simp add: stored_def)
  qed
  from u g returned fields stamp show ?thesis by blast
qed

theorem Update_effect_law_witness:
  "Update json_codec 9 ''test-id-2'' changed
       [(''test-id-2'', cb_update\<lparr>CreatedAt := 5, UpdatedAt := 5\<rparr>)]
     = (Inr (cb_update\<lparr>Amount := 999, CreatedAt := 5, UpdatedAt := 9\<rparr>, True),
        [(''test-id-2'', cb_update\<lparr>Amount := 999, CreatedAt := 5, UpdatedAt := 9\<rparr>)])
   \<and> reads_back json_codec changed
   \<and> timestamps_roundtrip json_codec
   \<and> (\<exists>r'. stored json_codec ''test-id-2''
              (snd (Update json_codec 9 ''test-id-2'' changed
                      [(''test-id-2'', cb_update\<lparr>CreatedAt := 5, UpdatedAt := 5\<rparr>)])) = Some r'
           \<and> Amount r' = 999 \<and> Currency r' = ''EUR'' \<and> Reason r' = ''fraudulent'')
   \<and> (\<exists>r'. stored json_codec ''test-id-2''
              (snd (Update json_codec 9 ''test-id-2'' changed
                      [(''test-id-2'', cb_update\<lparr>CreatedAt := 5, UpdatedAt := 5\<rparr>)])) = Some r'
           \<and> UpdatedAt r' = 9)"
proof -
  let ?e = "cb_update\<lparr>CreatedAt := 5, UpdatedAt := 5\<rparr>"
  let ?r = "cb_update\<lparr>Amount := 999, CreatedAt := 5, UpdatedAt := 9\<rparr>"
  have present: "bucket_Get ''test-id-2'' [(''test-id-2'', ?e)] = Some ?e"
    by (simp add: bucket_Get_def)
  have dec: "unmarshal json_codec ?e = Inr ?e" by (simp add: json_eval)
  have differs: "Amount changed \<noteq> Amount ?e \<or> Currency changed \<noteq> Currency ?e
                 \<or> Reason changed \<noteq> Reason ?e"
    by (simp add: changed_def cb_update_def)
  have enc: "marshal json_codec (?e\<lparr>Amount := Amount changed, Currency := Currency changed,
                 Reason := Reason changed, UpdatedAt := 9\<rparr>) = Inr ?r"
    by (simp add: json_eval)
  have key: "''test-id-2'' \<noteq> []" "length ''test-id-2'' \<le> MaxKeySize"
    "len json_codec ?r \<le> MaxValueSize"
    by (simp_all add: json_eval)
  have rb: "reads_back json_codec changed"
    by (rule json_codec_reads_back) (simp_all add: changed_def coerce_UTF8_fixtures)
  note law = Update_effect_law [OF present dec differs enc key]
  from law have first: "Update json_codec 9 ''test-id-2'' changed [(''test-id-2'', ?e)]
      = (Inr (?r, True), [(''test-id-2'', ?r)])"
    by (simp add: changed_def cb_update_def)
  from law rb have "\<exists>r'. stored json_codec ''test-id-2''
              (snd (Update json_codec 9 ''test-id-2'' changed [(''test-id-2'', ?e)])) = Some r'
           \<and> Amount r' = Amount changed \<and> Currency r' = Currency changed
           \<and> Reason r' = Reason changed" by blast
  then have second: "\<exists>r'. stored json_codec ''test-id-2''
              (snd (Update json_codec 9 ''test-id-2'' changed [(''test-id-2'', ?e)])) = Some r'
           \<and> Amount r' = 999 \<and> Currency r' = ''EUR'' \<and> Reason r' = ''fraudulent''"
    by (simp add: changed_def)
  from law json_codec_timestamps have third: "\<exists>r'. stored json_codec ''test-id-2''
              (snd (Update json_codec 9 ''test-id-2'' changed [(''test-id-2'', ?e)])) = Some r'
           \<and> UpdatedAt r' = 9" by blast
  from first rb json_codec_timestamps second third show ?thesis by blast
qed

text \<open>
  C3 as stated fails in two ways. When the clock reads, at the update, the instant it read at
  the previous write, the record is written and its new \<^verbatim>\<open>UpdatedAt\<close> is not strictly
  greater than the previous one: nothing in the store compares the reading with the stored
  timestamp. And when the \<^verbatim>\<open>Reason\<close> of the payload is the byte \<open>0xFF\<close>, which is not
  valid UTF-8, the record stored afterwards has U+FFFD as its \<^verbatim>\<open>Reason\<close>, not the
  payload's.
\<close>

theorem Update_effect_counterexample:
  "Amount changed \<noteq> Amount (cb_update\<lparr>CreatedAt := 5, UpdatedAt := 5\<rparr>)
   \<and> Update json_codec 5 ''test-id-2'' changed
        [(''test-id-2'', cb_update\<lparr>CreatedAt := 5, UpdatedAt := 5\<rparr>)]
      = (Inr (cb_update\<lparr>Amount := 999, CreatedAt := 5, UpdatedAt := 5\<rparr>, True),
         [(''test-id-2'', cb_update\<lparr>Amount := 999, CreatedAt := 5, UpdatedAt := 5\<rparr>)])
   \<and> \<not> UpdatedAt (cb_update\<lparr>CreatedAt := 5, UpdatedAt := 5\<rparr>)
        < UpdatedAt (cb_update\<lparr>Amount := 999, CreatedAt := 5, UpdatedAt := 5\<rparr>)
   \<and> Reason same_FF \<noteq> Reason (cb_update\<lparr>CreatedAt := 5, UpdatedAt := 5\<rparr>)
   \<and> fst (Update json_codec 9 ''test-id-2'' same_FF
             [(''test-id-2'', cb_update\<lparr>CreatedAt := 5, UpdatedAt := 5\<rparr>)])
      = Inr (cb_update\<lparr>Reason := [CHR 0xFF], CreatedAt := 5, UpdatedAt := 9\<rparr>, True)
   \<and> stored json_codec ''test-id-2''
        (snd (Update json_codec 9 ''test-id-2'' same_FF
                [(''test-id-2'', cb_update\<lparr>CreatedAt := 5, UpdatedAt := 5\<rparr>)]))
      = Some (cb_update\<lparr>Reason := RuneError, CreatedAt := 5, UpdatedAt := 9\<rparr>)
   \<and> Reason (cb_update\<lparr>Reason := RuneError, CreatedAt := 5, UpdatedAt := 9\<rparr>)
      \<noteq> Reason same_FF"
  by (simp add: json_eval)

text \<open>
  C4. For every id that is not in the store and every payload, \<^verbatim>\<open>Update\<close> fails with
  \<^verbatim>\<open>ErrNotFound\<close> and the store afterwards is the store before: the id is still absent and
  no entry has changed.
\<close>

theorem Update_absent_NotFound:
  assumes "bucket_Get cid b = None"
  shows "Update cd now cid incoming b = (Inl ErrNotFound, b)
         \<and> bucket_Get cid (snd (Update cd now cid incoming b)) = None"
  using assms by (simp add: Update_def db_Update_def)

theorem Update_absent_NotFound_witness:
  "bucket_Get ''missing'' [(''a'', \<lparr>ID = ''a'', Amount = 1000, Currency = ''USD'',
       Reason = ''dup'', CreatedAt = 5, UpdatedAt = 5\<rparr>)] = None
   \<and> Update plain_codec 7 ''missing''
       \<lparr>ID = [], Amount = 0, Currency = [], Reason = [], CreatedAt = 0, UpdatedAt = 0\<rparr>
       [(''a'', \<lparr>ID = ''a'', Amount = 1000, Currency = ''USD'',
       Reason = ''dup'', CreatedAt = 5, UpdatedAt = 5\<rparr>)]
     = (Inl ErrNotFound, [(''a'', \<lparr>ID = ''a'', Amount = 1000, Currency = ''USD'',
       Reason = ''dup'', CreatedAt = 5, UpdatedAt = 5\<rparr>)])"
proof -
  have h: "bucket_Get ''missing'' [(''a'', \<lparr>ID = ''a'', Amount = 1000, Currency = ''USD'',
       Reason = ''dup'', CreatedAt = 5, UpdatedAt = 5\<rparr>)] = None"
    by (simp add: bucket_Get_def)
  from Update_absent_NotFound [OF h, of plain_codec 7] h show ?thesis by simp
qed

text \<open>
  C10. \<^verbatim>\<open>Update\<close> reads only \<^verbatim>\<open>Amount\<close>, \<^verbatim>\<open>Currency\<close> and
  \<^verbatim>\<open>Reason\<close> of the payload: two payloads that agree on these three give the same result
  and the same store, whatever their \<^verbatim>\<open>ID\<close>, \<^verbatim>\<open>CreatedAt\<close> and
  \<^verbatim>\<open>UpdatedAt\<close> are. And after a successful \<^verbatim>\<open>Update\<close> of a present id whose payload
  decodes to \<open>e\<close>, the record stored under the id has the \<^verbatim>\<open>ID\<close> and the
  \<^verbatim>\<open>CreatedAt\<close> of \<open>e\<close>, and so has the record returned; when \<^verbatim>\<open>Update\<close> wrote,
  what is stored is the encoding of the record returned, and when it did not, that record is
  \<open>e\<close> and the store is unchanged. This holds for every codec through which the timestamps
  and the IDs it has decoded survive, as they do through \<^verbatim>\<open>encoding/json\<close>.
\<close>

theorem Update_frame:
  "(Amount p = Amount p' \<and> Currency p = Currency p' \<and> Reason p = Reason p'
      \<longrightarrow> Update cd now cid p b = Update cd now cid p' b)
   \<and> (timestamps_roundtrip cd \<and> decoded_ID_roundtrip cd \<and>
      bucket_Get cid b = Some v \<and> unmarshal cd v = Inr e \<and>
      Update cd now cid p b = (Inr (r, w), b')
      \<longrightarrow> (\<exists>r'. stored cd cid b' = Some r' \<and> ID r' = ID e \<and> CreatedAt r' = CreatedAt e)
        \<and> ID r = ID e \<and> CreatedAt r = CreatedAt e
        \<and> (if w then (\<exists>data. marshal cd r = Inr data \<and> bucket_Get cid b' = Some data)
            else r = e \<and> b' = b))"
proof (rule conjI; rule impI)
  assume "Amount p = Amount p' \<and> Currency p = Currency p' \<and> Reason p = Reason p'"
  then show "Update cd now cid p b = Update cd now cid p' b"
    by (auto simp: store_defs split: option.splits sum.splits)
next
  assume h: "timestamps_roundtrip cd \<and> decoded_ID_roundtrip cd \<and>
             bucket_Get cid b = Some v \<and> unmarshal cd v = Inr e \<and>
             Update cd now cid p b = (Inr (r, w), b')"
  then have tr: "timestamps_roundtrip cd" and idr: "decoded_ID_roundtrip cd"
    and g: "bucket_Get cid b = Some v" and u: "unmarshal cd v = Inr e"
    and r: "Update cd now cid p b = (Inr (r, w), b')" by simp_all
  show "(\<exists>r'. stored cd cid b' = Some r' \<and> ID r' = ID e \<and> CreatedAt r' = CreatedAt e)
        \<and> ID r = ID e \<and> CreatedAt r = CreatedAt e
        \<and> (if w then (\<exists>data. marshal cd r = Inr data \<and> bucket_Get cid b' = Some data)
            else r = e \<and> b' = b)"
  proof (cases "Amount e = Amount p \<and> Currency e = Currency p \<and> Reason e = Reason p")
    case True
    then have "Update cd now cid p b = (Inr (e, False), b)"
      using Update_present_same [OF g u] by simp
    with r have same: "r = e" "\<not> w" "b' = b" by simp_all
    have "stored cd cid b = Some e" using g u by (simp add: stored_def)
    with same show ?thesis by simp
  next
    case False
    let ?e = "e\<lparr>Amount := Amount p, Currency := Currency p, Reason := Reason p,
                 UpdatedAt := now\<rparr>"
    from r Update_present_changed [OF g u False, of now]
    obtain data where d: "marshal cd ?e = Inr data" "r = ?e" "w" "b' = bucket_set cid data b"
      by (auto split: sum.splits if_splits)
    from tr d(1) obtain r' where r': "unmarshal cd data = Inr r'" "CreatedAt r' = CreatedAt ?e"
      unfolding timestamps_roundtrip_def by blast
    have "ID ?e = ID e" by simp
    with idr u d(1) r'(1) have "ID r' = ID ?e"
      unfolding decoded_ID_roundtrip_def by blast
    moreover have get: "bucket_Get cid b' = Some data" using d(4) by (simp add: bucket_Get_set_same)
    then have "stored cd cid b' = Some r'" using r'(1) by (simp add: stored_def)
    ultimately have "\<exists>r'. stored cd cid b' = Some r' \<and> ID r' = ID e \<and> CreatedAt r' = CreatedAt e"
      using r'(2) by simp
    then show ?thesis using d get by simp
  qed
qed

theorem Update_frame_witness:
  "Update json_codec 9 ''test-id-2'' changed
       [(''test-id-2'', cb_update\<lparr>CreatedAt := 5, UpdatedAt := 5\<rparr>)]
     = Update json_codec 9 ''test-id-2''
         (changed\<lparr>ID := ''other'', CreatedAt := 77, UpdatedAt := 88\<rparr>)
         [(''test-id-2'', cb_update\<lparr>CreatedAt := 5, UpdatedAt := 5\<rparr>)]
   \<and> timestamps_roundtrip json_codec \<and> decoded_ID_roundtrip json_codec
   \<and> fst (Update json_codec 9 ''test-id-2'' changed
             [(''test-id-2'', cb_update\<lparr>CreatedAt := 5, UpdatedAt := 5\<rparr>)])
      = Inr (cb_update\<lparr>Amount := 999, CreatedAt := 5, UpdatedAt := 9\<rparr>, True)
   \<and> (\<exists>r'. stored json_codec ''test-id-2''
              (snd (Update json_codec 9 ''test-id-2'' changed
                      [(''test-id-2'', cb_update\<lparr>CreatedAt := 5, UpdatedAt := 5\<rparr>)])) = Some r'
           \<and> ID r' = ''test-id-2'' \<and> CreatedAt r' = 5)"
proof -
  let ?e = "cb_update\<lparr>CreatedAt := 5, UpdatedAt := 5\<rparr>"
  let ?r = "cb_update\<lparr>Amount := 999, CreatedAt := 5, UpdatedAt := 9\<rparr>"
  let ?p' = "changed\<lparr>ID := ''other'', CreatedAt := 77, UpdatedAt := 88\<rparr>"
  let ?b = "[(''test-id-2'', ?e)]"
  have same_fields: "Amount changed = Amount ?p' \<and> Currency changed = Currency ?p'
                     \<and> Reason changed = Reason ?p'" by simp
  have present: "bucket_Get ''test-id-2'' ?b = Some ?e"
    by (simp add: bucket_Get_def)
  have dec: "unmarshal json_codec ?e = Inr ?e" by (simp add: json_eval)
  obtain b' where wrote: "Update json_codec 9 ''test-id-2'' changed ?b = (Inr (?r, True), b')"
    by (simp add: json_eval)
  note frame = Update_frame [of changed ?p' json_codec 9 "''test-id-2''" ?b ?e ?e ?r True b']
  from frame same_fields
  have first: "Update json_codec 9 ''test-id-2'' changed ?b
               = Update json_codec 9 ''test-id-2'' ?p' ?b" by blast
  from frame json_codec_timestamps json_codec_decoded_ID present dec wrote
  have "\<exists>r'. stored json_codec ''test-id-2'' b' = Some r' \<and> ID r' = ID ?e
          \<and> CreatedAt r' = CreatedAt ?e" by blast
  then have second: "\<exists>r'. stored json_codec ''test-id-2''
        (snd (Update json_codec 9 ''test-id-2'' changed ?b)) = Some r'
          \<and> ID r' = ''test-id-2'' \<and> CreatedAt r' = 5"
    using wrote by (simp add: cb_update_def)
  from wrote have result: "fst (Update json_codec 9 ''test-id-2'' changed ?b) = Inr (?r, True)"
    by simp
  show ?thesis
    by (intro conjI first json_codec_timestamps json_codec_decoded_ID result second)
qed

section \<open>Delete\<close>

text \<open>
  C5. For every id, present or not, \<^verbatim>\<open>Delete\<close> returns no error; afterwards the id is
  absent and \<^verbatim>\<open>Get\<close> fails with \<^verbatim>\<open>ErrNotFound\<close>; a second \<^verbatim>\<open>Delete\<close>
  returns no error either and leaves the store as the first one left it, and \<^verbatim>\<open>Get\<close>
  fails with \<^verbatim>\<open>ErrNotFound\<close> after it as well.
\<close>

theorem Delete_idempotent:
  "fst (Delete cid b) = None
   \<and> bucket_Get cid (snd (Delete cid b)) = None
   \<and> Get cd cid (snd (Delete cid b)) = Inl ErrNotFound
   \<and> Delete cid (snd (Delete cid b)) = (None, snd (Delete cid b))
   \<and> Get cd cid (snd (Delete cid (snd (Delete cid b)))) = Inl ErrNotFound"
  by (simp add: store_defs bucket_Get_filter_same)

theorem Delete_idempotent_witness:
  "Delete ''del-id'' [(''del-id'', cb_delete\<lparr>CreatedAt := 5, UpdatedAt := 5\<rparr>)] = (None, [])
   \<and> Delete ''del-id'' ([] :: Chargeback bucket) = (None, [])
   \<and> Get plain_codec ''del-id'' [] = Inl ErrNotFound"
proof -
  let ?b = "[(''del-id'', cb_delete\<lparr>CreatedAt := 5, UpdatedAt := 5\<rparr>)]"
  have d: "snd (Delete ''del-id'' ?b) = []" by (simp add: store_defs)
  from Delete_idempotent [of "''del-id''" ?b plain_codec] d
  have "fst (Delete ''del-id'' ?b) = None" "snd (Delete ''del-id'' ?b) = []"
    "Delete ''del-id'' ([] :: Chargeback bucket) = (None, [])"
    "Get plain_codec ''del-id'' [] = Inl ErrNotFound"
    by simp_all
  then show ?thesis by (simp add: prod_eq_iff)
qed

section \<open>Timestamps\<close>

text \<open>
  C6, as the code has it. Let the timestamps survive the codec. In every state reached from
  the empty store by a history of \<^verbatim>\<open>Create\<close>, \<^verbatim>\<open>Update\<close> and \<^verbatim>\<open>Delete\<close>
  calls whose clock readings never decrease, every payload in the store decodes to a record
  with \<open>UpdatedAt \<ge> CreatedAt\<close>. And whatever the clock reads, from any state: a record that
  is present before a history and after each of its calls has, at the end, the
  \<^verbatim>\<open>CreatedAt\<close> it had at the start.
\<close>

theorem Timestamp_invariants:
  assumes "timestamps_roundtrip cd"
  shows "(sorted (map fst ops) \<and> bucket_Get k (run cd ops []) = Some v
            \<longrightarrow> (\<exists>r. unmarshal cd v = Inr r \<and> CreatedAt r \<le> UpdatedAt r))
       \<and> (stored cd k b = Some r0 \<and> present_throughout cd k ops' b
            \<longrightarrow> (\<exists>r'. stored cd k (run cd ops' b) = Some r' \<and> CreatedAt r' = CreatedAt r0))"
proof (rule conjI; rule impI)
  assume h: "sorted (map fst ops) \<and> bucket_Get k (run cd ops []) = Some v"
  define T where "T = (if ops = [] then 0 else fst (hd ops))"
  have lower: "\<forall>t\<in>set (map fst ops). T \<le> t"
    using h by (cases ops) (auto simp: T_def)
  have empty: "\<forall>kv\<in>set ([] :: (string \<times> 'a) list). \<exists>r. unmarshal cd (snd kv) = Inr r
                 \<and> CreatedAt r \<le> UpdatedAt r \<and> UpdatedAt r \<le> T" by simp
  from h have s: "sorted (map fst ops)" by simp
  note inv = run_invariant [OF assms s lower empty]
  from h have "(k, v) \<in> set (run cd ops [])" by (simp add: bucket_Get_in_set)
  with inv show "\<exists>r. unmarshal cd v = Inr r \<and> CreatedAt r \<le> UpdatedAt r" by fastforce
next
  assume "stored cd k b = Some r0 \<and> present_throughout cd k ops' b"
  then show "\<exists>r'. stored cd k (run cd ops' b) = Some r' \<and> CreatedAt r' = CreatedAt r0"
    using run_CreatedAt [OF assms] by blast
qed

theorem Timestamp_invariants_witness:
  "timestamps_roundtrip json_codec
   \<and> sorted (map fst [(5 :: instant, Op_Create cb_update), (9, Op_Update ''test-id-2'' changed)])
   \<and> bucket_Get ''test-id-2''
        (run json_codec [(5 :: instant, Op_Create cb_update), (9, Op_Update ''test-id-2'' changed)] [])
       = Some (cb_update\<lparr>Amount := 999, CreatedAt := 5, UpdatedAt := 9\<rparr>)
   \<and> CreatedAt (cb_update\<lparr>Amount := 999, CreatedAt := 5, UpdatedAt := 9\<rparr>)
       \<le> UpdatedAt (cb_update\<lparr>Amount := 999, CreatedAt := 5, UpdatedAt := 9\<rparr>)
   \<and> present_throughout json_codec ''test-id-2'' [(3, Op_Update ''test-id-2'' changed)]
        [(''test-id-2'', cb_update\<lparr>CreatedAt := 5, UpdatedAt := 5\<rparr>)]
   \<and> (\<exists>r'. stored json_codec ''test-id-2''
               (run json_codec [(3, Op_Update ''test-id-2'' changed)]
                  [(''test-id-2'', cb_update\<lparr>CreatedAt := 5, UpdatedAt := 5\<rparr>)]) = Some r'
            \<and> CreatedAt r' = 5)"
proof -
  let ?ops = "[(5 :: instant, Op_Create cb_update), (9, Op_Update ''test-id-2'' changed)]"
  let ?e = "cb_update\<lparr>CreatedAt := 5, UpdatedAt := 5\<rparr>"
  let ?r = "cb_update\<lparr>Amount := 999, CreatedAt := 5, UpdatedAt := 9\<rparr>"
  let ?ops' = "[(3, Op_Update ''test-id-2'' changed)]"
  note tr = json_codec_timestamps
  have srt: "sorted (map fst ?ops)" by simp
  have get: "bucket_Get ''test-id-2'' (run json_codec ?ops []) = Some ?r"
    by (simp add: json_eval)
  have st: "stored json_codec ''test-id-2'' [(''test-id-2'', ?e)] = Some ?e"
    by (simp add: json_eval)
  have pt: "present_throughout json_codec ''test-id-2'' ?ops' [(''test-id-2'', ?e)]"
    by (simp add: json_eval)
  note inv = Timestamp_invariants [OF tr, of ?ops "''test-id-2''" ?r
                "[(''test-id-2'', ?e)]" ?e ?ops']
  from inv srt get have "\<exists>r. unmarshal json_codec ?r = Inr r \<and> CreatedAt r \<le> UpdatedAt r"
    by blast
  then have le: "CreatedAt ?r \<le> UpdatedAt ?r" by (auto simp: json_codec_def coerce_strings_def)
  from inv st pt have "\<exists>r'. stored json_codec ''test-id-2''
      (run json_codec ?ops' [(''test-id-2'', ?e)]) = Some r' \<and> CreatedAt r' = CreatedAt ?e"
    by blast
  then have keep: "\<exists>r'. stored json_codec ''test-id-2''
      (run json_codec ?ops' [(''test-id-2'', ?e)]) = Some r' \<and> CreatedAt r' = 5"
    by simp
  from tr srt get le pt keep show ?thesis by blast
qed

text \<open>
  C6 as stated fails when the clock is set back between two calls: a record created at
  reading 5 and updated at reading 3 is stored with \<^verbatim>\<open>UpdatedAt\<close> before
  \<^verbatim>\<open>CreatedAt\<close>. The store stamps the wall clock as it reads and compares nothing.
\<close>

theorem Clock_backwards_counterexample:
  "stored plain_codec ''test-id-2''
      (run plain_codec [(5, Op_Create cb_update), (3, Op_Update ''test-id-2'' changed)] [])
     = Some (cb_update\<lparr>Amount := 999, CreatedAt := 5, UpdatedAt := 3\<rparr>)
   \<and> \<not> CreatedAt (cb_update\<lparr>Amount := 999, CreatedAt := 5, UpdatedAt := 3\<rparr>)
        \<le> UpdatedAt (cb_update\<lparr>Amount := 999, CreatedAt := 5, UpdatedAt := 3\<rparr>)"
  by (simp add: stored_def store_defs bucket_Get_def plain_codec_def changed_def cb_update_def
        MaxKeySize_def MaxValueSize_def)

section \<open>Errors\<close>

text \<open>
  C7. \<^verbatim>\<open>Get\<close> returns \<^verbatim>\<open>ErrNotFound\<close> exactly when the id is absent, and so does
  \<^verbatim>\<open>Update\<close>; \<^verbatim>\<open>Create\<close> and \<^verbatim>\<open>Delete\<close> return it for no input.
\<close>

theorem NotFound_taxonomy:
  "(Get cd cid b = Inl ErrNotFound) = (bucket_Get cid b = None)
   \<and> (fst (Update cd now cid incoming b) = Inl ErrNotFound) = (bucket_Get cid b = None)
   \<and> fst (Create cd now c b) \<noteq> Inl ErrNotFound
   \<and> fst (Delete cid b) \<noteq> Some ErrNotFound"
  by (auto simp: store_defs split: option.splits sum.splits if_splits)

theorem NotFound_taxonomy_witness:
  "Get plain_codec ''missing'' [] = Inl ErrNotFound
   \<and> fst (Update plain_codec 5 ''nonexistent'' same []) = Inl ErrNotFound
   \<and> Get plain_codec ''test-id-1'' [(''test-id-1'', cb_create)] \<noteq> Inl ErrNotFound
   \<and> fst (Create plain_codec 5 cb_create []) \<noteq> Inl ErrNotFound
   \<and> fst (Delete ''missing'' ([] :: Chargeback bucket)) \<noteq> Some ErrNotFound"
proof -
  have absent: "bucket_Get ''missing'' ([] :: Chargeback bucket) = None"
    "bucket_Get ''nonexistent'' ([] :: Chargeback bucket) = None"
    by (simp_all add: bucket_Get_def)
  have present: "bucket_Get ''test-id-1'' [(''test-id-1'', cb_create)] \<noteq> None"
    by (simp add: bucket_Get_def)
  from NotFound_taxonomy [of plain_codec "''missing''" "[]" 5 same cb_create]
       NotFound_taxonomy [of plain_codec "''nonexistent''" "[]" 5 same cb_create]
       NotFound_taxonomy [of plain_codec "''test-id-1''" "[(''test-id-1'', cb_create)]"
                             5 same cb_create]
       absent present
  show ?thesis by simp
qed

section \<open>List\<close>

text \<open>
  C8. On the empty store \<^verbatim>\<open>List\<close> succeeds and returns the empty slice, not the nil
  slice. In general a successful \<^verbatim>\<open>List\<close> returns a slice that is not nil and holds,
  in the order of the keys, the decoded record of every entry: as many records as there are
  entries, which is the number of keys when no key occurs twice. And \<^verbatim>\<open>List\<close> does
  succeed when every payload decodes.
\<close>

theorem List_emptiness:
  "List cd [] = Inr (Slice [])
   \<and> List cd [] \<noteq> Inr Nil_slice
   \<and> (\<forall>s. List cd b = Inr s \<longrightarrow>
        (\<exists>xs. s = Slice xs \<and> length xs = length b
            \<and> map (\<lambda>kv. unmarshal cd (snd kv)) b = map Inr xs
            \<and> (distinct (map fst b) \<longrightarrow> length xs = card (fst ` set b))))
   \<and> (list_all (\<lambda>kv. \<not> isl (unmarshal cd (snd kv))) b \<longrightarrow> (\<exists>s. List cd b = Inr s))"
proof (intro conjI allI impI)
  show "List cd [] = Inr (Slice [])" by (simp add: List_def db_View_def)
  show "List cd [] \<noteq> Inr Nil_slice" by (simp add: List_def db_View_def)
next
  fix s assume "List cd b = Inr s"
  then obtain items where it: "ForEach_decode cd b Nil_slice = Inr items"
    and s: "s = (if items = Nil_slice then Slice [] else items)"
    by (auto simp: List_def db_View_def split: sum.splits)
  from ForEach_decode_result [OF it] obtain xs where xs:
    "map (\<lambda>kv. unmarshal cd (snd kv)) b = map Inr xs" "elems items = xs"
    by auto
  have len: "length xs = length b" using xs(1) by (metis length_map)
  have "s = Slice xs" using s xs(2) by (cases items) auto
  moreover have "distinct (map fst b) \<longrightarrow> length xs = card (fst ` set b)"
    using len by (metis distinct_card length_map set_map)
  ultimately show "\<exists>xs. s = Slice xs \<and> length xs = length b
            \<and> map (\<lambda>kv. unmarshal cd (snd kv)) b = map Inr xs
            \<and> (distinct (map fst b) \<longrightarrow> length xs = card (fst ` set b))"
    using len xs(1) by blast
next
  assume "list_all (\<lambda>kv. \<not> isl (unmarshal cd (snd kv))) b"
  from ForEach_decode_total [OF this, of Nil_slice]
  show "\<exists>s. List cd b = Inr s" by (auto simp: List_def db_View_def)
qed

theorem List_emptiness_witness:
  "List plain_codec [] = Inr (Slice [])
   \<and> List plain_codec [(''del-id'', cb_delete), (''test-id-1'', cb_create)]
       = Inr (Slice [cb_delete, cb_create])"
proof -
  let ?b = "[(''del-id'', cb_delete), (''test-id-1'', cb_create)]"
  have ok: "list_all (\<lambda>kv. \<not> isl (unmarshal plain_codec (snd kv))) ?b"
    by (simp add: plain_codec_def)
  note l = List_emptiness [of plain_codec ?b]
  from l ok obtain s where s: "List plain_codec ?b = Inr s" by blast
  with l obtain xs where xs: "s = Slice xs"
    "map (\<lambda>kv. unmarshal plain_codec (snd kv)) ?b = map Inr xs" by blast
  from xs(2) have "[Inr cb_delete, Inr cb_create] = map (Inr :: Chargeback \<Rightarrow> string + Chargeback) xs"
    by (simp add: plain_codec_def)
  then have "xs = [cb_delete, cb_create]" by (auto simp: Cons_eq_map_conv)
  with s xs(1) l show ?thesis by simp
qed

section \<open>The create handler\<close>

text \<open>
  C9. For a POST request with a non-empty id and a body that decodes, for which
  \<^verbatim>\<open>Create\<close> returns a record and the flag \<open>created\<close> without error, the handler
  writes the status 201 when \<open>created\<close> is true and 200 otherwise, and in both cases the
  same body: the JSON encoding of the record the store returned.
\<close>

theorem create_status_mapping:
  assumes "PathValue_id r \<noteq> []" and "Decode h (Body r) = Inr body0"
    and "Create (store h) now (body0\<lparr>ID := PathValue_id r\<rparr>) b = (Inr (result, created), b')"
  shows "create h now w r b
           = (writeJSON h w (if created then StatusCreated else StatusOK) (JChargeback result), b')
         \<and> status (fst (create h now w r b)) = Some (if created then 201 else 200)
         \<and> written (fst (create h now w r b))
             = written w @ (case Encode h (JChargeback result) of Inl err \<Rightarrow> [] | Inr bytes \<Rightarrow> bytes)"
  using assms
  by (simp add: create_def writeJSON_def StatusCreated_def StatusOK_def Let_def split: sum.splits)

theorem create_status_mapping_witness:
  "status (fst (create test_Handler 5 new_ResponseWriter
                  \<lparr>PathValue_id = ''test-id-1'', Body = ''{}''\<rparr> [])) = Some 201
   \<and> written (fst (create test_Handler 5 new_ResponseWriter
                  \<lparr>PathValue_id = ''test-id-1'', Body = ''{}''\<rparr> [])) = ''test-id-1''
   \<and> status (fst (create test_Handler 9 new_ResponseWriter
                  \<lparr>PathValue_id = ''test-id-1'', Body = ''{}''\<rparr>
                  [(''test-id-1'', cb_create\<lparr>CreatedAt := 5, UpdatedAt := 5\<rparr>)])) = Some 200
   \<and> written (fst (create test_Handler 9 new_ResponseWriter
                  \<lparr>PathValue_id = ''test-id-1'', Body = ''{}''\<rparr>
                  [(''test-id-1'', cb_create\<lparr>CreatedAt := 5, UpdatedAt := 5\<rparr>)])) = ''test-id-1''"
proof -
  let ?r = "\<lparr>PathValue_id = ''test-id-1'', Body = ''{}''\<rparr>"
  let ?c = "cb_create\<lparr>CreatedAt := 5, UpdatedAt := 5\<rparr>"
  have path: "PathValue_id ?r \<noteq> []" by simp
  have dec: "Decode test_Handler (Body ?r) = Inr cb_create" by (simp add: test_Handler_def)
  have first: "Create (store test_Handler) 5 (cb_create\<lparr>ID := PathValue_id ?r\<rparr>) []
               = (Inr (?c, True), [(''test-id-1'', ?c)])"
    by (simp add: test_Handler_def store_defs bucket_Get_def plain_codec_def cb_create_def
          MaxKeySize_def MaxValueSize_def)
  have second: "Create (store test_Handler) 9 (cb_create\<lparr>ID := PathValue_id ?r\<rparr>)
                  [(''test-id-1'', ?c)] = (Inr (?c, False), [(''test-id-1'', ?c)])"
    by (simp add: test_Handler_def store_defs bucket_Get_def plain_codec_def cb_create_def)
  have enc: "Encode test_Handler (JChargeback ?c) = Inr ''test-id-1''"
    by (simp add: test_Handler_def cb_create_def)
  from create_status_mapping [OF path dec first, of new_ResponseWriter, THEN conjunct2]
       create_status_mapping [OF path dec second, of new_ResponseWriter, THEN conjunct2] enc
  show ?thesis by (simp add: new_ResponseWriter_def)
qed

end
